theory Spec2Isabelle
  imports Main "HOL-Library.Multiset"
begin

section \<open>JavaScript values\<close>

text \<open>
  A number that \<^verbatim>\<open>JSON.parse\<close> can deliver, given by what \<^verbatim>\<open>Number::toString\<close> reads
  off it, since the program does nothing with such a number but convert it to a
  string: zero (of either sign); an infinity (a literal such as \<^verbatim>\<open>1e999\<close> parses to
  one; \<open>True\<close> is the negative one); or, for any other double, its sign (\<open>True\<close> for
  a negative number), the decimal digits of the integer \<open>s\<close> and the integer \<open>n\<close> of
  step 5 of \<^verbatim>\<open>Number::toString\<close>: with \<open>k\<close> the number of digits of \<open>s\<close>, the
  shortest decimal \<open>s \<times> 10\<^sup>n\<^sup>-\<^sup>k\<close> that reads back as the number. So 3.9 is
  \<open>Decimal False ''39'' 1\<close>, 60 is \<open>Decimal False ''6'' 2\<close> and \<^verbatim>\<open>1e21\<close> is
  \<open>Decimal False ''1'' 22\<close>.
\<close>

datatype number = Zero | Decimal bool string int | Infinite bool

text \<open>
  The values \<^verbatim>\<open>response.json()\<close> can deliver. A string is a list of code units below
  256. An object carries its own properties in the order in which
  \<^verbatim>\<open>for (const id in gamesData)\<close> enumerates them.
\<close>

datatype json =
    JNull
  | JBool bool
  | JNumber number
  | JString string
  | JArray "json list"
  | JObject "(string \<times> json) list"

text \<open>
  What \<^verbatim>\<open>parseInt\<close> returns: an integer that a double holds, \<^verbatim>\<open>NaN\<close>, or an infinity
  (\<open>True\<close> the negative one). The zero \<^verbatim>\<open>-0\<close> is \<open>Num 0\<close>: the program compares numbers
  with \<^verbatim>\<open>Set.prototype.has\<close> and \<^verbatim>\<open>includes\<close> and prints them with \<^verbatim>\<open>String\<close>, which do
  not tell the two zeros apart.
\<close>

datatype jsnum = Num int | NaN | Infinity bool

datatype js_error =
    TypeError
  | SyntaxError
  | HttpError nat
  | NetworkError

section \<open>Application state\<close>

text \<open>
  A game object as \<^verbatim>\<open>fetchGames\<close> builds it (\<^verbatim>\<open>id\<close> is written \<open>game_id\<close>), and
  the same object once step 1 of \<^verbatim>\<open>renderGamesTable\<close> has stored \<^verbatim>\<open>hitsCount\<close> and
  \<^verbatim>\<open>hits\<close> on it. Every call of \<^verbatim>\<open>renderGamesTable\<close> rewrites both fields on every game
  before it reads them, so they carry nothing from one call to the next and the
  array \<^verbatim>\<open>GAMES\<close> is kept as the list of loaded games.
\<close>

record game =
  game_id :: string
  sanitizedId :: string
  numbers :: "jsnum list"
  source :: string

record scored_game = game +
  hitsCount :: nat
  hits :: "jsnum list"

text \<open>An object with exactly the keys 4, 5 and 6 (\<^verbatim>\<open>prizeCounts\<close>, \<^verbatim>\<open>winningGameIds\<close>).\<close>

record 'a tiers =
  t4 :: 'a
  t5 :: 'a
  t6 :: 'a

datatype animation = Confetti nat | Fireworks nat nat

datatype table_body =
    Empty
  | Rows "scored_game list"
  | NoGamesMessage
  | LoadErrorMessage

text \<open>
  The three variables of the closure (\<^verbatim>\<open>drawnNumbers\<close>, a \<^verbatim>\<open>Set\<close> kept as the list of
  its members in insertion order; \<^verbatim>\<open>lastBestPrizeLevel\<close>; \<^verbatim>\<open>GAMES\<close>) and what the page
  holds: the filter switch, the table body, the total, the winner banner, the
  calls of \<^verbatim>\<open>triggerCelebration\<close> with the animations each launched, and the errors
  that reached the console.
\<close>

record app =
  drawnNumbers :: "jsnum list"
  lastBestPrizeLevel :: nat
  GAMES :: "game list"
  filterSwitch :: bool
  totalBetsDisplay :: "nat option"
  gamesTableBody :: table_body
  winnerBanner :: bool
  winnerTitle :: string
  winnerCounts :: "nat tiers"
  winnerGames :: "string list tiers"
  celebrations :: "(nat \<times> animation list) list"
  console :: "js_error list"

section \<open>The drawn selection: a JavaScript Set\<close>

definition set_has :: "jsnum list \<Rightarrow> jsnum \<Rightarrow> bool" where
  "set_has S num = (num \<in> set S)"

definition set_delete :: "jsnum list \<Rightarrow> jsnum \<Rightarrow> jsnum list" where
  "set_delete S num = removeAll num S"

definition set_add :: "jsnum list \<Rightarrow> jsnum \<Rightarrow> jsnum list" where
  "set_add S num = (if num \<in> set S then S else S @ [num])"

definition set_size :: "jsnum list \<Rightarrow> nat" where
  "set_size S = length S"

section \<open>The winner banner\<close>

definition triggerCelebration :: "nat \<Rightarrow> animation list" where
  "triggerCelebration prizeLevel =
     (if prizeLevel = 4 then [Confetti 40] else []) @
     (if prizeLevel = 5 then [Confetti 80] else []) @
     (if prizeLevel = 6 then [Confetti 100, Fireworks 5 30] else [])"

definition updateWinnerUI ::
  "nat tiers \<Rightarrow> string list tiers \<Rightarrow> nat \<Rightarrow> app \<Rightarrow> app" where
  "updateWinnerUI prizeCounts winningGameIds bestPrizeThisCheck s =
     (if bestPrizeThisCheck < 4 then
        s\<lparr>winnerBanner := False, lastBestPrizeLevel := 0\<rparr>
      else
        let s1 = (if bestPrizeThisCheck > lastBestPrizeLevel s
                  then s\<lparr>celebrations := celebrations s @
                         [(bestPrizeThisCheck, triggerCelebration bestPrizeThisCheck)]\<rparr>
                  else s);
            title = (if bestPrizeThisCheck = 6 then ''SENA!''
                     else if bestPrizeThisCheck = 5 then ''QUINA!''
                     else ''QUADRA!'')
        in s1\<lparr>lastBestPrizeLevel := bestPrizeThisCheck,
               winnerTitle := title,
               winnerCounts := prizeCounts,
               winnerGames := winningGameIds,
               winnerBanner := True\<rparr>)"

section \<open>Loading the games\<close>

text \<open>\<^verbatim>\<open>String(n)\<close> for a non-negative integer, used by the template literals.\<close>

function show_nat :: "nat \<Rightarrow> string" where
  "show_nat n =
     (if n < 10 then [''0123456789'' ! n]
      else show_nat (n div 10) @ [''0123456789'' ! (n mod 10)])"
  by pat_completeness auto
termination
  by (relation "measure id") auto

declare show_nat.simps [simp del]

text \<open>
  \<^verbatim>\<open>Number::toString\<close> for radix 10, steps 6 to 11: plain digits when \<open>n\<close> is between
  -5 and 21, exponent notation otherwise.
\<close>

definition number_toString :: "number \<Rightarrow> string" where
  "number_toString x =
     (case x of
        Zero \<Rightarrow> ''0''
      | Infinite neg \<Rightarrow> (if neg then ''-Infinity'' else ''Infinity'')
      | Decimal neg digits n \<Rightarrow>
          (let k = int (length digits) in
           (if neg then ''-'' else []) @
           (if - 5 \<le> n \<and> n \<le> 21 then
              (if k \<le> n then digits @ replicate (nat (n - k)) CHR ''0''
               else if 0 < n then take (nat n) digits @ ''.'' @ drop (nat n) digits
               else ''0.'' @ replicate (nat (- n)) CHR ''0'' @ digits)
            else
              (if k = 1 then digits else take 1 digits @ ''.'' @ drop 1 digits) @
              ''e'' @ (if n < 0 then ''-'' else ''+'') @ show_nat (nat (abs (n - 1))))))"

text \<open>
  The results of calls made one after the other (the callback of \<^verbatim>\<open>map\<close> or of
  \<^verbatim>\<open>join\<close> on each element in turn), or the first error thrown.
\<close>

fun results :: "('e + 'a) list \<Rightarrow> 'e + 'a list" where
  "results [] = Inr []"
| "results (r # rs) =
     (case r of
        Inl e \<Rightarrow> Inl e
      | Inr a \<Rightarrow> (case results rs of Inl e \<Rightarrow> Inl e | Inr rest \<Rightarrow> Inr (a # rest)))"

fun join :: "string \<Rightarrow> string list \<Rightarrow> string" where
  "join sep [] = []"
| "join sep [x] = x"
| "join sep (x # y # ys) = x @ sep @ join sep (y # ys)"

text \<open>
  \<^verbatim>\<open>ToString\<close> of a parsed value, which \<^verbatim>\<open>parseInt\<close> applies to its argument first. An
  array is its elements joined by commas, \<^verbatim>\<open>null\<close> elements as the empty string. An
  object is converted by \<^verbatim>\<open>OrdinaryToPrimitive\<close>: with an own property \<^verbatim>\<open>toString\<close>
  (which no parsed value can make callable) the inherited \<^verbatim>\<open>toString\<close> is hidden,
  \<^verbatim>\<open>valueOf\<close> is either hidden too or returns the object itself, and a \<^verbatim>\<open>TypeError\<close> is
  thrown; without it \<^verbatim>\<open>Object.prototype.toString\<close> answers.
\<close>

fun js_toString :: "json \<Rightarrow> js_error + string" where
  "js_toString JNull = Inr ''null''"
| "js_toString (JBool b) = Inr (if b then ''true'' else ''false'')"
| "js_toString (JNumber x) = Inr (number_toString x)"
| "js_toString (JString s) = Inr s"
| "js_toString (JArray xs) =
     (case results (map (\<lambda>x. if x = JNull then Inr [] else js_toString x) xs) of
        Inl e \<Rightarrow> Inl e
      | Inr strs \<Rightarrow> Inr (join '','' strs))"
| "js_toString (JObject kvs) =
     (if ''toString'' \<in> set (map fst kvs) then Inl TypeError
      else Inr ''[object Object]'')"

text \<open>
  The white space and line terminators that \<^verbatim>\<open>parseInt\<close> skips, among the code units
  below 256: tab, line feed, vertical tab, form feed, carriage return, space and
  no-break space.
\<close>

definition isWhiteSpace :: "char \<Rightarrow> bool" where
  "isWhiteSpace c = ((of_char c :: nat) \<in> {9, 10, 11, 12, 13, 32, 160})"

definition isDigit :: "char \<Rightarrow> bool" where
  "isDigit c = (48 \<le> (of_char c :: nat) \<and> (of_char c :: nat) \<le> 57)"

definition digitValue :: "char \<Rightarrow> int" where
  "digitValue c = int (of_char c) - 48"

text \<open>
  The Number for a mathematical integer: the integer itself below \<open>2\<^sup>5\<^sup>3\<close>, else the
  nearest double (53 significant bits, ties to the even one), an infinity from
  \<open>2\<^sup>1\<^sup>0\<^sup>2\<^sup>4\<close> on.
\<close>

function bit_length :: "int \<Rightarrow> nat" where
  "bit_length m = (if m \<le> 0 then 0 else Suc (bit_length (m div 2)))"
  by pat_completeness auto
termination
  by (relation "measure nat") auto

declare bit_length.simps [simp del]

definition toDouble :: "int \<Rightarrow> jsnum" where
  "toDouble i =
     (let m = abs i in
      if m < 2 ^ 53 then Num i
      else
        let e = bit_length m - 53;
            q = m div 2 ^ e;
            r = m mod 2 ^ e;
            q' = (if 2 ^ e < 2 * r \<or> (2 * r = 2 ^ e \<and> odd q) then q + 1 else q);
            v = q' * 2 ^ e
        in if 2 ^ 1024 \<le> v then Infinity (i < 0)
           else Num (if i < 0 then - v else v))"

text \<open>
  \<^verbatim>\<open>parseInt(string, 10)\<close>: leading white space is dropped, then an optional sign, then
  the longest run of decimal digits is read; with no digit the result is \<^verbatim>\<open>NaN\<close>,
  else the Number for the integer read. (ECMAScript lets an engine read the
  digits after the 20th as zeros; they are read as they stand here.)
\<close>

definition dropSign :: "string \<Rightarrow> string" where
  "dropSign t =
     (case t of c # r \<Rightarrow> if c = CHR ''-'' \<or> c = CHR ''+'' then r else t | [] \<Rightarrow> t)"

definition parseInt_string :: "string \<Rightarrow> jsnum" where
  "parseInt_string str =
     (let t = dropWhile isWhiteSpace str;
          neg = (case t of c # _ \<Rightarrow> c = CHR ''-'' | [] \<Rightarrow> False);
          ds = takeWhile isDigit (dropSign t)
      in if ds = [] then NaN
         else toDouble ((if neg then - 1 else 1) * foldl (\<lambda>a c. 10 * a + digitValue c) 0 ds))"

text \<open>\<^verbatim>\<open>parseInt(num, 10)\<close> on a parsed value: the error \<^verbatim>\<open>ToString\<close> throws, or the number.\<close>

definition parseInt :: "json \<Rightarrow> js_error + jsnum" where
  "parseInt num =
     (case js_toString num of Inl e \<Rightarrow> Inl e | Inr str \<Rightarrow> Inr (parseInt_string str))"

text \<open>\<^verbatim>\<open>str.replace(/[^a-zA-Z0-9-]/g, '_')\<close>\<close>

definition sanitizeForHtml :: "string \<Rightarrow> string" where
  "sanitizeForHtml str =
     map (\<lambda>c. let n = (of_char c :: nat) in
            if (97 \<le> n \<and> n \<le> 122) \<or> (65 \<le> n \<and> n \<le> 90) \<or> (48 \<le> n \<and> n \<le> 57) \<or> n = 45
            then c else CHR ''_'') str"

text \<open>
  The pairs \<^verbatim>\<open>(id, gamesData[id])\<close> that \<^verbatim>\<open>for (const id in gamesData)\<close> visits: the
  properties of an object, the indices of an array or of a string, and nothing for
  \<^verbatim>\<open>null\<close>, a boolean or a number.
\<close>

fun for_in :: "json \<Rightarrow> (string \<times> json) list" where
  "for_in (JObject kvs) = kvs"
| "for_in (JArray xs) = zip (map show_nat [0..<length xs]) xs"
| "for_in (JString str) = zip (map show_nat [0..<length str]) (map (\<lambda>c. JString [c]) str)"
| "for_in _ = []"

text \<open>
  \<^verbatim>\<open>bets.forEach((betNumbers, index) => ...)\<close> of the multi-bet branch, from \<open>index\<close>
  on. \<^verbatim>\<open>betNumbers.map\<close> is a function only when \<^verbatim>\<open>betNumbers\<close> is an array: on any
  other value the call throws a \<^verbatim>\<open>TypeError\<close>. On an array, the first \<^verbatim>\<open>parseInt\<close> that
  throws ends the load as well.
\<close>

fun forEach_bets ::
  "string \<Rightarrow> json list \<Rightarrow> nat \<Rightarrow> game list \<Rightarrow> js_error + game list" where
  "forEach_bets ident [] index processedGames = Inr processedGames"
| "forEach_bets ident (betNumbers # rest) index processedGames =
     (case betNumbers of
        JArray nums \<Rightarrow>
          (case results (map parseInt nums) of
             Inl e \<Rightarrow> Inl e
           | Inr parsed \<Rightarrow>
               forEach_bets ident rest (index + 1)
                 (processedGames @
                   [\<lparr>game_id = ident @ ''-'' @ show_nat (index + 1),
                     sanitizedId = sanitizeForHtml ident @ ''-'' @ show_nat (index + 1),
                     numbers = parsed,
                     source = ident\<rparr>]))
      | _ \<Rightarrow> Inl TypeError)"

definition isArray :: "json \<Rightarrow> bool" where
  "isArray v = (case v of JArray _ \<Rightarrow> True | _ \<Rightarrow> False)"

text \<open>\<^verbatim>\<open>Array.isArray(bets) && Array.isArray(bets[0])\<close>: \<^verbatim>\<open>bets[0]\<close> of an empty array is
  \<^verbatim>\<open>undefined\<close>.\<close>

definition isMultiBet :: "json \<Rightarrow> bool" where
  "isMultiBet bets = (case bets of JArray (b0 # _) \<Rightarrow> isArray b0 | _ \<Rightarrow> False)"

text \<open>One pass of the body of the \<^verbatim>\<open>for...in\<close> loop.\<close>

definition processEntry :: "string \<times> json \<Rightarrow> game list \<Rightarrow> js_error + game list" where
  "processEntry entry processedGames =
     (let ident = fst entry; bets = snd entry in
      if ident = ''_comment'' then Inr processedGames
      else if isMultiBet bets then
        (case bets of JArray bs \<Rightarrow> forEach_bets ident bs 0 processedGames
                    | _ \<Rightarrow> Inr processedGames)
      else
        (case bets of
           JArray nums \<Rightarrow>
             (case results (map parseInt nums) of
                Inl e \<Rightarrow> Inl e
              | Inr parsed \<Rightarrow>
                  Inr (processedGames @
                    [\<lparr>game_id = ident,
                      sanitizedId = sanitizeForHtml ident,
                      numbers = parsed,
                      source = ident\<rparr>]))
         | _ \<Rightarrow> Inr processedGames))"

fun processEntries :: "(string \<times> json) list \<Rightarrow> game list \<Rightarrow> js_error + game list" where
  "processEntries [] processedGames = Inr processedGames"
| "processEntries (entry # rest) processedGames =
     (case processEntry entry processedGames of
        Inl e \<Rightarrow> Inl e
      | Inr processedGames' \<Rightarrow> processEntries rest processedGames')"

text \<open>
  What \<^verbatim>\<open>fetch('games.json')\<close> and \<^verbatim>\<open>response.json()\<close> deliver: the request fails, or
  a response arrives with a status and a body that parses (\<open>Some\<close>) or does not.
\<close>

datatype fetch_result = Rejected | Response nat "json option"

text \<open>The body of the \<^verbatim>\<open>try\<close> block: the games, or the error thrown.\<close>

definition loadGames :: "fetch_result \<Rightarrow> js_error + game list" where
  "loadGames r =
     (case r of
        Rejected \<Rightarrow> Inl NetworkError
      | Response status body \<Rightarrow>
          if \<not> (200 \<le> status \<and> status \<le> 299) then Inl (HttpError status)
          else (case body of
                  None \<Rightarrow> Inl SyntaxError
                | Some gamesData \<Rightarrow> processEntries (for_in gamesData) []))"

definition fetchGames :: "fetch_result \<Rightarrow> app \<Rightarrow> app" where
  "fetchGames r s =
     (case loadGames r of
        Inr processedGames \<Rightarrow>
          s\<lparr>GAMES := processedGames, totalBetsDisplay := Some (length processedGames)\<rparr>
      | Inl error \<Rightarrow>
          s\<lparr>console := console s @ [error], gamesTableBody := LoadErrorMessage\<rparr>)"

section \<open>Rendering the games table\<close>

text \<open>Step 1 of \<^verbatim>\<open>renderGamesTable\<close>, for one game.\<close>

definition calcHits :: "jsnum list \<Rightarrow> game \<Rightarrow> scored_game" where
  "calcHits drawn g =
     (let hs = filter (\<lambda>num. set_has drawn num) (numbers g) in
      \<lparr>game_id = game_id g, sanitizedId = sanitizedId g, numbers = numbers g,
       source = source g, hitsCount = length hs, hits = hs\<rparr>)"

text \<open>
  \<^verbatim>\<open>Array.prototype.sort(compareFn)\<close>: ECMAScript requires a stable sort, and for a
  consistent comparator the result is the one that insertion from the right
  builds: an element goes before the first element it does not compare greater
  than.
\<close>

fun sort_insert :: "('a \<Rightarrow> 'a \<Rightarrow> int) \<Rightarrow> 'a \<Rightarrow> 'a list \<Rightarrow> 'a list" where
  "sort_insert compareFn x [] = [x]"
| "sort_insert compareFn x (y # ys) =
     (if compareFn x y \<le> 0 then x # y # ys else y # sort_insert compareFn x ys)"

definition array_sort :: "('a \<Rightarrow> 'a \<Rightarrow> int) \<Rightarrow> 'a list \<Rightarrow> 'a list" where
  "array_sort compareFn xs = foldr (sort_insert compareFn) xs []"

text \<open>Steps 1 and 2: the hits of every game, then the filter and the sort.\<close>

definition gamesToRender :: "app \<Rightarrow> scored_game list" where
  "gamesToRender s =
     (let scored = map (calcHits (drawnNumbers s)) (GAMES s) in
      if filterSwitch s then
        array_sort (\<lambda>a b. int (hitsCount b) - int (hitsCount a))
          (filter (\<lambda>game. hitsCount game > 0) scored)
      else scored)"

text \<open>Reading and writing the property \<open>k\<close> of an object whose keys are 4, 5 and 6.\<close>

definition tier_get :: "nat \<Rightarrow> 'a tiers \<Rightarrow> 'a option" where
  "tier_get k t =
     (if k = 4 then Some (t4 t) else if k = 5 then Some (t5 t)
      else if k = 6 then Some (t6 t) else None)"

definition tier_set :: "nat \<Rightarrow> 'a \<Rightarrow> 'a tiers \<Rightarrow> 'a tiers" where
  "tier_set k v t =
     (if k = 4 then t\<lparr>t4 := v\<rparr> else if k = 5 then t\<lparr>t5 := v\<rparr>
      else if k = 6 then t\<lparr>t6 := v\<rparr> else t)"

record tally =
  prizeCounts :: "nat tiers"
  winningGameIds :: "string list tiers"
  bestPrizeThisCheck :: nat
  tableHTML :: "scored_game list"

definition tally0 :: tally where
  "tally0 = \<lparr>prizeCounts = \<lparr>t4 = 0, t5 = 0, t6 = 0\<rparr>,
             winningGameIds = \<lparr>t4 = [], t5 = [], t6 = []\<rparr>,
             bestPrizeThisCheck = 0, tableHTML = []\<rparr>"

text \<open>
  One pass of the loop of step 3. With seven hits or more \<^verbatim>\<open>winningGameIds[hitsCount]\<close>
  is \<^verbatim>\<open>undefined\<close> and \<^verbatim>\<open>.push\<close> on it throws a \<^verbatim>\<open>TypeError\<close>. The row of the game is
  appended to \<^verbatim>\<open>tableHTML\<close> at the end of the pass.
\<close>

definition tallyGame :: "scored_game \<Rightarrow> tally \<Rightarrow> js_error + tally" where
  "tallyGame game t =
     (if hitsCount game \<ge> 4 then
        (case (tier_get (hitsCount game) (prizeCounts t),
               tier_get (hitsCount game) (winningGameIds t)) of
           (Some n, Some ids) \<Rightarrow>
             Inr (t\<lparr>prizeCounts := tier_set (hitsCount game) (n + 1) (prizeCounts t),
                    winningGameIds :=
                      tier_set (hitsCount game) (ids @ [game_id game]) (winningGameIds t),
                    bestPrizeThisCheck :=
                      (if hitsCount game > bestPrizeThisCheck t then hitsCount game
                       else bestPrizeThisCheck t),
                    tableHTML := tableHTML t @ [game]\<rparr>)
         | _ \<Rightarrow> Inl TypeError)
      else Inr (t\<lparr>tableHTML := tableHTML t @ [game]\<rparr>))"

fun forEach_tally :: "scored_game list \<Rightarrow> tally \<Rightarrow> js_error + tally" where
  "forEach_tally [] t = Inr t"
| "forEach_tally (game # rest) t =
     (case tallyGame game t of
        Inl e \<Rightarrow> Inl e
      | Inr t' \<Rightarrow> forEach_tally rest t')"

text \<open>Steps 1 to 3: the tallies and the rows, or the error thrown.\<close>

definition checkGames :: "app \<Rightarrow> js_error + tally" where
  "checkGames s = forEach_tally (gamesToRender s) tally0"

text \<open>
  \<^verbatim>\<open>renderGamesTable\<close>. An error thrown in step 3 leaves the handler before the table
  and the banner are written: it reaches the console and the page keeps what it
  showed.
\<close>

definition renderGamesTable :: "app \<Rightarrow> app" where
  "renderGamesTable s =
     (case checkGames s of
        Inl e \<Rightarrow> s\<lparr>console := console s @ [e]\<rparr>
      | Inr t \<Rightarrow>
          updateWinnerUI (prizeCounts t) (winningGameIds t) (bestPrizeThisCheck t)
            (s\<lparr>gamesTableBody :=
                 (if tableHTML t = [] then NoGamesMessage else Rows (tableHTML t))\<rparr>))"

section \<open>Event handlers\<close>

text \<open>
  \<^verbatim>\<open>updateAllUI\<close>: \<^verbatim>\<open>renderResultDisplay\<close> and \<^verbatim>\<open>renderNumberGrid\<close> write the selection
  into the page and change nothing else; \<^verbatim>\<open>renderGamesTable\<close> follows.
\<close>

definition updateAllUI :: "app \<Rightarrow> app" where
  "updateAllUI s = renderGamesTable s"

text \<open>
  \<^verbatim>\<open>handleGridClick\<close>: the target is a number button (\<open>Some\<close> of its \<^verbatim>\<open>data-number\<close>)
  or anything else in the grid (\<open>None\<close>).
\<close>

definition handleGridClick :: "int option \<Rightarrow> app \<Rightarrow> app" where
  "handleGridClick target s =
     (case target of
        None \<Rightarrow> s
      | Some n \<Rightarrow>
          let num = Num n in
          updateAllUI
            (if set_has (drawnNumbers s) num then
               s\<lparr>drawnNumbers := set_delete (drawnNumbers s) num\<rparr>
             else if set_size (drawnNumbers s) < 6 then
               s\<lparr>drawnNumbers := set_add (drawnNumbers s) num\<rparr>
             else s))"

definition handleClear :: "app \<Rightarrow> app" where
  "handleClear s = updateAllUI (s\<lparr>drawnNumbers := []\<rparr>)"

text \<open>A change of the filter switch: the browser flips it, then calls the listener.\<close>

definition handleFilterChange :: "app \<Rightarrow> app" where
  "handleFilterChange s = renderGamesTable (s\<lparr>filterSwitch := \<not> filterSwitch s\<rparr>)"

text \<open>
  The state when the script starts (the switch as the page declares it), and
  \<^verbatim>\<open>init\<close>.
\<close>

definition initial :: "bool \<Rightarrow> app" where
  "initial checked =
     \<lparr>drawnNumbers = [], lastBestPrizeLevel = 0, GAMES = [], filterSwitch = checked,
      totalBetsDisplay = None, gamesTableBody = Empty, winnerBanner = False,
      winnerTitle = [], winnerCounts = \<lparr>t4 = 0, t5 = 0, t6 = 0\<rparr>,
      winnerGames = \<lparr>t4 = [], t5 = [], t6 = []\<rparr>, celebrations = [], console = []\<rparr>"

definition init :: "bool \<Rightarrow> fetch_result \<Rightarrow> app" where
  "init checked r = renderGamesTable (fetchGames r (initial checked))"

datatype event = GridClick "int option" | Clear | FilterChange

fun handle :: "event \<Rightarrow> app \<Rightarrow> app" where
  "handle (GridClick target) s = handleGridClick target s"
| "handle Clear s = handleClear s"
| "handle FilterChange s = handleFilterChange s"

text \<open>The events of a session, handled one after the other.\<close>

definition run :: "event list \<Rightarrow> app \<Rightarrow> app" where
  "run events s = foldl (\<lambda>s e. handle e s) s events"

section \<open>Sequences of checks and concrete inputs\<close>

text \<open>
  The states after each of a sequence of checks, each check handing its tallies
  to \<^verbatim>\<open>updateWinnerUI\<close> as step 4 of \<^verbatim>\<open>renderGamesTable\<close> does.
\<close>

fun announce_all :: "tally list \<Rightarrow> app \<Rightarrow> app list" where
  "announce_all [] s = []"
| "announce_all (t # ts) s =
     (let s' = updateWinnerUI (prizeCounts t) (winningGameIds t) (bestPrizeThisCheck t) s
      in s' # announce_all ts s')"

definition check_with_best :: "nat \<Rightarrow> tally" where
  "check_with_best b = tally0\<lparr>bestPrizeThisCheck := b\<rparr>"

definition clicks :: "int list \<Rightarrow> event list" where
  "clicks ns = map (\<lambda>n. GridClick (Some n)) ns"

text \<open>
  The parsed number for an integer that a double holds (every integer below \<open>2\<^sup>5\<^sup>3\<close>
  is one): its digits without the zeros at the end, and the number of its digits.
\<close>

definition JInt :: "int \<Rightarrow> json" where
  "JInt i =
     JNumber (if i = 0 then Zero
              else let digits = show_nat (nat (abs i)) in
                   Decimal (i < 0) (rev (dropWhile (\<lambda>c. c = CHR ''0'') (rev digits)))
                     (int (length digits)))"

text \<open>A \<^verbatim>\<open>games.json\<close> with the single ticket \<^verbatim>\<open>"A": [1, 2, 3, 4, 5, 6]\<close>.\<close>

definition ticket_A :: fetch_result where
  "ticket_A =
     Response 200 (Some (JObject [(''A'', JArray (map JInt [1, 2, 3, 4, 5, 6]))]))"

text \<open>
  The tallies of a list of games in closed form, on top of the tallies \<open>t\<close>: for
  each tier the number of games with that many hits and their ids in the order
  of the list, the highest tier of 4 or more reached, and the rows.
\<close>

definition tallied :: "scored_game list \<Rightarrow> tally \<Rightarrow> tally" where
  "tallied xs t =
     \<lparr>prizeCounts =
        \<lparr>t4 = t4 (prizeCounts t) + length (filter (\<lambda>g. hitsCount g = 4) xs),
         t5 = t5 (prizeCounts t) + length (filter (\<lambda>g. hitsCount g = 5) xs),
         t6 = t6 (prizeCounts t) + length (filter (\<lambda>g. hitsCount g = 6) xs)\<rparr>,
      winningGameIds =
        \<lparr>t4 = t4 (winningGameIds t) @ map game_id (filter (\<lambda>g. hitsCount g = 4) xs),
         t5 = t5 (winningGameIds t) @ map game_id (filter (\<lambda>g. hitsCount g = 5) xs),
         t6 = t6 (winningGameIds t) @ map game_id (filter (\<lambda>g. hitsCount g = 6) xs)\<rparr>,
      bestPrizeThisCheck =
        Max (insert (bestPrizeThisCheck t) (hitsCount ` {g \<in> set xs. 4 \<le> hitsCount g})),
      tableHTML = tableHTML t @ xs\<rparr>"

text \<open>The tickets \<^verbatim>\<open>{"A": [1,2,3,4,5,6], "B": [1,2,3,4,60,59]}\<close>.\<close>

definition scenario :: fetch_result where
  "scenario =
     Response 200 (Some (JObject
       [(''A'', JArray (map JInt [1, 2, 3, 4, 5, 6])),
        (''B'', JArray (map JInt [1, 2, 3, 4, 60, 59]))]))"

text \<open>Four tickets: with 1 to 6 drawn, P and R have 4 hits, Q has 6 and N none.\<close>

definition four_tickets :: fetch_result where
  "four_tickets =
     Response 200 (Some (JObject
       [(''P'', JArray (map JInt [1, 2, 3, 4, 50, 51])),
        (''Q'', JArray (map JInt [1, 2, 3, 4, 5, 6])),
        (''N'', JArray (map JInt [10, 11, 12, 13, 14, 15])),
        (''R'', JArray (map JInt [1, 2, 3, 4, 52, 53]))]))"

text \<open>
  The games one entry of the collection stands for: none for \<^verbatim>\<open>_comment\<close>; for a
  multi-bet (an array whose first element is an array) one game per element, in
  order, with the ids \<^verbatim>\<open>id-1\<close>, \<^verbatim>\<open>id-2\<close>, ...; for any other array one game with the
  id of the ticket; none for a value that is not an array. The numbers of a game
  are what \<^verbatim>\<open>parseInt\<close> returns for the values of its bet.
\<close>

definition elements :: "json \<Rightarrow> json list" where
  "elements v = (case v of JArray xs \<Rightarrow> xs | _ \<Rightarrow> [])"

definition betGame :: "string \<Rightarrow> nat \<times> json \<Rightarrow> game" where
  "betGame ident p =
     \<lparr>game_id = ident @ ''-'' @ show_nat (fst p + 1),
      sanitizedId = sanitizeForHtml ident @ ''-'' @ show_nat (fst p + 1),
      numbers = map (\<lambda>num. projr (parseInt num)) (elements (snd p)),
      source = ident\<rparr>"

definition entryGames :: "string \<times> json \<Rightarrow> game list" where
  "entryGames entry =
     (let ident = fst entry; bets = snd entry in
      if ident = ''_comment'' then []
      else if isMultiBet bets then map (betGame ident) (enumerate 0 (elements bets))
      else if isArray bets then
        [\<lparr>game_id = ident, sanitizedId = sanitizeForHtml ident,
          numbers = map (\<lambda>num. projr (parseInt num)) (elements bets), source = ident\<rparr>]
      else [])"

text \<open>
  The values \<^verbatim>\<open>ToString\<close> converts: all but an object with an own property
  \<^verbatim>\<open>toString\<close> and an array that holds, at any depth of arrays, such an object.
\<close>

fun convertible :: "json \<Rightarrow> bool" where
  "convertible (JArray xs) = list_all convertible xs"
| "convertible (JObject kvs) = (''toString'' \<notin> set (map fst kvs))"
| "convertible v = True"

text \<open>
  The entries that load: \<^verbatim>\<open>_comment\<close>; a multi-bet whose elements are all arrays of
  convertible values; any other array of convertible values; any value that is
  not an array.
\<close>

definition loadable :: "string \<times> json \<Rightarrow> bool" where
  "loadable entry =
     (fst entry = ''_comment'' \<or>
      (if isMultiBet (snd entry)
       then list_all (\<lambda>b. isArray b \<and> list_all convertible (elements b))
              (elements (snd entry))
       else list_all convertible (elements (snd entry))))"

text \<open>
  A \<^verbatim>\<open>games.json\<close> with a comment, a multi-bet of two bets and a single bet; one
  whose multi-bet T has the number 5 as second element; one with a bet of
  three values, the first the string \<^verbatim>\<open>"x"\<close>, and a ticket whose value is a number;
  and \<^verbatim>\<open>{"A": [1,2,3,4,5,6], "T": [{"toString": 1}, 2, 3, 4, 5, 6]}\<close>.
\<close>

definition three_entries :: json where
  "three_entries =
     JObject
       [(''_comment'', JString ''Add your games here.''),
        (''T'', JArray [JArray (map JInt [1, 2, 3, 4, 5, 6]),
                        JArray (map JInt [7, 8, 9, 10, 11, 12])]),
        (''S'', JArray (map JInt [1, 10, 23, 44, 51, 60]))]"

definition broken_multi_bet :: json where
  "broken_multi_bet =
     JObject
       [(''A'', JArray (map JInt [1, 2, 3, 4, 5, 6])),
        (''T'', JArray [JArray (map JInt [1, 2, 3, 4, 5, 6]), JInt 5])]"

definition malformed_entries :: json where
  "malformed_entries =
     JObject
       [(''T'', JArray [JString ''x'', JInt 2, JInt 3]),
        (''U'', JInt 5)]"

definition toString_object_bet :: json where
  "toString_object_bet =
     JObject
       [(''A'', JArray (map JInt [1, 2, 3, 4, 5, 6])),
        (''T'', JArray [JObject [(''toString'', JInt 1)],
                        JInt 2, JInt 3, JInt 4, JInt 5, JInt 6])]"

section \<open>The winner banner and the celebration\<close>

lemma updateWinnerUI_last:
  "lastBestPrizeLevel (updateWinnerUI pc ids b s) = (if b < 4 then 0 else b)"
  by (simp add: updateWinnerUI_def Let_def)

lemma updateWinnerUI_celebrations:
  "celebrations (updateWinnerUI pc ids b s) =
     (if 4 \<le> b \<and> lastBestPrizeLevel s < b
      then celebrations s @ [(b, triggerCelebration b)] else celebrations s)"
  by (simp add: updateWinnerUI_def Let_def)

lemma updateWinnerUI_drawn [simp]:
  "drawnNumbers (updateWinnerUI pc ids b s) = drawnNumbers s"
  by (simp add: updateWinnerUI_def Let_def)

lemma renderGamesTable_drawn [simp]:
  "drawnNumbers (renderGamesTable s) = drawnNumbers s"
  by (simp add: renderGamesTable_def split: sum.splits)

text \<open>
  Claim C3. In every state and for every check, \<^verbatim>\<open>updateWinnerUI\<close> calls
  \<^verbatim>\<open>triggerCelebration\<close> (once, with the best tier of the check) exactly when that
  tier is at least 4 and greater than the stored \<^verbatim>\<open>lastBestPrizeLevel\<close>; otherwise
  the list of celebrations stays as it was. For checks whose best tiers are
  0, 4, 4, 6, 5, from the initial state, the celebrations after each check are
  none, [4], [4], [4, 6], [4, 6]: it fires twice, at the first 4 and at the 6.
\<close>

theorem celebration_fires_on_strict_increase:
  "celebrations (updateWinnerUI pc ids b s) =
     (if 4 \<le> b \<and> lastBestPrizeLevel s < b
      then celebrations s @ [(b, triggerCelebration b)] else celebrations s)
   \<and> map (\<lambda>s. map fst (celebrations s))
        (announce_all (map check_with_best [0, 4, 4, 6, 5]) (initial False)) =
      [[], [4], [4], [4, 6], [4, 6]]"
proof
  show "celebrations (updateWinnerUI pc ids b s) =
     (if 4 \<le> b \<and> lastBestPrizeLevel s < b
      then celebrations s @ [(b, triggerCelebration b)] else celebrations s)"
    by (rule updateWinnerUI_celebrations)
next
  show "map (\<lambda>s. map fst (celebrations s))
        (announce_all (map check_with_best [0, 4, 4, 6, 5]) (initial False)) =
      [[], [4], [4], [4, 6], [4, 6]]"
    by (simp add: check_with_best_def tally0_def initial_def updateWinnerUI_def Let_def)
qed

theorem celebration_fires_on_strict_increase_witness:
  "celebrations (updateWinnerUI \<lparr>t4 = 1, t5 = 0, t6 = 0\<rparr> \<lparr>t4 = [''A''], t5 = [], t6 = []\<rparr> 4
       (initial False)) = [(4, [Confetti 40])]
   \<and> celebrations (updateWinnerUI \<lparr>t4 = 1, t5 = 0, t6 = 0\<rparr> \<lparr>t4 = [''A''], t5 = [], t6 = []\<rparr> 4
       ((initial False)\<lparr>lastBestPrizeLevel := 4\<rparr>)) = []"
  using celebration_fires_on_strict_increase
    [of "\<lparr>t4 = 1, t5 = 0, t6 = 0\<rparr>" "\<lparr>t4 = [''A''], t5 = [], t6 = []\<rparr>" 4 "initial False"]
    celebration_fires_on_strict_increase
    [of "\<lparr>t4 = 1, t5 = 0, t6 = 0\<rparr>" "\<lparr>t4 = [''A''], t5 = [], t6 = []\<rparr>" 4
        "(initial False)\<lparr>lastBestPrizeLevel := 4\<rparr>"]
  by (simp add: initial_def triggerCelebration_def)

text \<open>
  Claim C4, as the code has it. A check whose best tier is at least 4 and not
  greater than the stored \<^verbatim>\<open>lastBestPrizeLevel\<close> fires no celebration, shows the
  banner with the counts and lists of this check, and stores the best tier of
  this check: the stored tier keeps its value when the tier repeats and is
  lowered when the tier drops.
\<close>

theorem no_celebration_and_tier_of_this_check_stored:
  assumes "4 \<le> b" and "b \<le> lastBestPrizeLevel s"
  shows "celebrations (updateWinnerUI pc ids b s) = celebrations s
    \<and> lastBestPrizeLevel (updateWinnerUI pc ids b s) = b
    \<and> winnerCounts (updateWinnerUI pc ids b s) = pc
    \<and> winnerGames (updateWinnerUI pc ids b s) = ids
    \<and> winnerBanner (updateWinnerUI pc ids b s)"
  using assms by (simp add: updateWinnerUI_def Let_def)

theorem no_celebration_and_tier_of_this_check_stored_witness:
  "celebrations (updateWinnerUI \<lparr>t4 = 0, t5 = 1, t6 = 0\<rparr> \<lparr>t4 = [], t5 = [''A''], t6 = []\<rparr> 5
       ((initial False)\<lparr>lastBestPrizeLevel := 6\<rparr>)) = []
   \<and> lastBestPrizeLevel (updateWinnerUI \<lparr>t4 = 0, t5 = 1, t6 = 0\<rparr>
       \<lparr>t4 = [], t5 = [''A''], t6 = []\<rparr> 5 ((initial False)\<lparr>lastBestPrizeLevel := 6\<rparr>)) = 5"
  using no_celebration_and_tier_of_this_check_stored
    [of 5 "(initial False)\<lparr>lastBestPrizeLevel := 6\<rparr>"
        "\<lparr>t4 = 0, t5 = 1, t6 = 0\<rparr>" "\<lparr>t4 = [], t5 = [''A''], t6 = []\<rparr>"]
  by (simp add: initial_def)

text \<open>
  Where the claim as written fails: with ticket A = [1, 2, 3, 4, 5, 6] loaded and
  1 to 6 selected the stored tier is 6; deselecting 6 gives a check whose best
  tier is 5, and the stored tier is 5 afterwards, not 6.
\<close>

theorem stored_tier_lowered_counterexample:
  "lastBestPrizeLevel (run (clicks [1, 2, 3, 4, 5, 6]) (init False ticket_A)) = 6
   \<and> map_sum id bestPrizeThisCheck
       (checkGames ((run (clicks [1, 2, 3, 4, 5, 6]) (init False ticket_A))
          \<lparr>drawnNumbers := [Num 1, Num 2, Num 3, Num 4, Num 5]\<rparr>)) = Inr 5
   \<and> lastBestPrizeLevel
       (handleGridClick (Some 6) (run (clicks [1, 2, 3, 4, 5, 6]) (init False ticket_A))) = 5"
  by code_simp

text \<open>
  Claim C10. A check whose best tier is below 4 stores 0 in
  \<^verbatim>\<open>lastBestPrizeLevel\<close>. So for checks whose best tiers are 4, 0, 4 the celebration
  fires at both 4s; and in the application, with ticket A = [1, 2, 3, 4, 5, 6],
  selecting 1, 2, 3, 4, then deselecting 4 and selecting it again celebrates the
  Quadra twice.
\<close>

theorem reset_below_four_lets_celebration_fire_again:
  "(b < 4 \<longrightarrow> lastBestPrizeLevel (updateWinnerUI pc ids b s) = 0)
   \<and> map (\<lambda>s. map fst (celebrations s))
        (announce_all (map check_with_best [4, 0, 4]) (initial False)) = [[4], [4], [4, 4]]
   \<and> map lastBestPrizeLevel
        (announce_all (map check_with_best [4, 0, 4]) (initial False)) = [4, 0, 4]
   \<and> celebrations (run (clicks [1, 2, 3, 4, 4, 4]) (init False ticket_A)) =
        [(4, [Confetti 40]), (4, [Confetti 40])]"
proof (intro conjI)
  show "b < 4 \<longrightarrow> lastBestPrizeLevel (updateWinnerUI pc ids b s) = 0"
    by (simp add: updateWinnerUI_last)
  show "map (\<lambda>s. map fst (celebrations s))
        (announce_all (map check_with_best [4, 0, 4]) (initial False)) = [[4], [4], [4, 4]]"
    by (simp add: check_with_best_def tally0_def initial_def updateWinnerUI_def Let_def)
  show "map lastBestPrizeLevel
        (announce_all (map check_with_best [4, 0, 4]) (initial False)) = [4, 0, 4]"
    by (simp add: check_with_best_def tally0_def initial_def updateWinnerUI_def Let_def)
  show "celebrations (run (clicks [1, 2, 3, 4, 4, 4]) (init False ticket_A)) =
        [(4, [Confetti 40]), (4, [Confetti 40])]"
    by code_simp
qed

theorem reset_below_four_lets_celebration_fire_again_witness:
  "lastBestPrizeLevel (updateWinnerUI \<lparr>t4 = 0, t5 = 0, t6 = 0\<rparr> \<lparr>t4 = [], t5 = [], t6 = []\<rparr> 3
       ((initial False)\<lparr>lastBestPrizeLevel := 4\<rparr>)) = 0"
  using reset_below_four_lets_celebration_fire_again
    [of 3 "\<lparr>t4 = 0, t5 = 0, t6 = 0\<rparr>" "\<lparr>t4 = [], t5 = [], t6 = []\<rparr>"
        "(initial False)\<lparr>lastBestPrizeLevel := 4\<rparr>"]
  by simp

section \<open>The drawn selection\<close>

lemma handleGridClick_drawn:
  "drawnNumbers (handleGridClick (Some n) s) =
     (if Num n \<in> set (drawnNumbers s) then removeAll (Num n) (drawnNumbers s)
      else if length (drawnNumbers s) < 6 then drawnNumbers s @ [Num n]
      else drawnNumbers s)"
  by (simp add: handleGridClick_def updateAllUI_def set_has_def set_delete_def set_add_def
      set_size_def Let_def)

lemma handleGridClick_None [simp]: "handleGridClick None s = s"
  by (simp add: handleGridClick_def)

lemma length_removeAll_less:
  "x \<in> set xs \<Longrightarrow> length (removeAll x xs) < length xs"
  by (induction xs) (auto simp: less_Suc_eq_le length_removeAll_less_eq)

lemma handle_size:
  assumes "length (drawnNumbers s) \<le> 6"
  shows "length (drawnNumbers (handle e s)) \<le> 6"
proof (cases e)
  case (GridClick target)
  show ?thesis
  proof (cases target)
    case None
    with GridClick assms show ?thesis by simp
  next
    case (Some n)
    have "length (removeAll (Num n) (drawnNumbers s)) \<le> length (drawnNumbers s)"
      by simp
    with GridClick Some assms show ?thesis
      by (simp add: handleGridClick_drawn del: length_removeAll_less_eq)
  qed
next
  case Clear
  then show ?thesis by (simp add: handleClear_def updateAllUI_def)
next
  case FilterChange
  with assms show ?thesis by (simp add: handleFilterChange_def)
qed

lemma handle_distinct:
  assumes "distinct (drawnNumbers s)"
  shows "distinct (drawnNumbers (handle e s))"
proof (cases e)
  case (GridClick target)
  with assms show ?thesis
    by (cases target) (simp_all add: handleGridClick_drawn distinct_removeAll)
next
  case Clear
  then show ?thesis by (simp add: handleClear_def updateAllUI_def)
next
  case FilterChange
  with assms show ?thesis by (simp add: handleFilterChange_def)
qed

lemma run_size:
  "length (drawnNumbers s) \<le> 6 \<Longrightarrow> length (drawnNumbers (run events s)) \<le> 6"
  unfolding run_def
  by (induction events arbitrary: s) (simp_all add: handle_size)

lemma run_distinct:
  "distinct (drawnNumbers s) \<Longrightarrow> distinct (drawnNumbers (run events s))"
  unfolding run_def
  by (induction events arbitrary: s) (simp_all add: handle_distinct)

lemma init_drawn [simp]: "drawnNumbers (init checked r) = []"
  by (simp add: init_def fetchGames_def initial_def split: sum.splits)

text \<open>
  Claim C6. From the start of a session (empty selection) and after any sequence
  of events (clicks in the grid, on a number button or not, clears, changes of
  the filter switch) the selection holds at most 6 numbers. A click on a number
  that is not selected, when 6 numbers (or more) are, leaves the selection as it
  is: the click does what a plain \<^verbatim>\<open>renderGamesTable\<close> of the same state does.
\<close>

theorem selection_never_exceeds_six:
  "set_size (drawnNumbers (run events (init checked r))) \<le> 6
   \<and> (6 \<le> set_size (drawnNumbers s) \<and> \<not> set_has (drawnNumbers s) (Num n) \<longrightarrow>
        drawnNumbers (handleGridClick (Some n) s) = drawnNumbers s
        \<and> handleGridClick (Some n) s = renderGamesTable s)"
proof
  show "set_size (drawnNumbers (run events (init checked r))) \<le> 6"
    unfolding set_size_def by (rule run_size) simp
next
  show "6 \<le> set_size (drawnNumbers s) \<and> \<not> set_has (drawnNumbers s) (Num n) \<longrightarrow>
        drawnNumbers (handleGridClick (Some n) s) = drawnNumbers s
        \<and> handleGridClick (Some n) s = renderGamesTable s"
    by (simp add: handleGridClick_drawn set_size_def set_has_def)
       (simp add: handleGridClick_def updateAllUI_def set_size_def set_has_def)
qed

theorem selection_never_exceeds_six_witness:
  "set_size (drawnNumbers (run (clicks [1, 2, 3, 4, 5, 6, 7]) (init False ticket_A))) \<le> 6
   \<and> drawnNumbers (run (clicks [1, 2, 3, 4, 5, 6]) (init False ticket_A)) =
       [Num 1, Num 2, Num 3, Num 4, Num 5, Num 6]
   \<and> drawnNumbers (handleGridClick (Some 7)
        (run (clicks [1, 2, 3, 4, 5, 6]) (init False ticket_A))) =
       [Num 1, Num 2, Num 3, Num 4, Num 5, Num 6]"
proof -
  have sel: "drawnNumbers (run (clicks [1, 2, 3, 4, 5, 6]) (init False ticket_A)) =
       [Num 1, Num 2, Num 3, Num 4, Num 5, Num 6]"
    by code_simp
  from selection_never_exceeds_six
    [of "clicks [1, 2, 3, 4, 5, 6, 7]" False ticket_A
        "run (clicks [1, 2, 3, 4, 5, 6]) (init False ticket_A)" 7] sel
  show ?thesis by (simp add: set_size_def set_has_def)
qed

text \<open>
  Claim C7. For a selection of at most 6 numbers, clicking the same number twice
  in a row gives back the same set of selected numbers (when the first click was
  refused for capacity, the second is refused too, and the selection never
  moved). A click on a selected number removes it, whatever the size of the
  selection. Selections are compared as sets of members: the order in which a
  \<^verbatim>\<open>Set\<close> lists them is read only by \<^verbatim>\<open>renderResultDisplay\<close>, which sorts them.
\<close>

theorem toggle_twice_restores_selection:
  "(set_size (drawnNumbers s) \<le> 6 \<longrightarrow>
      set (drawnNumbers (handleGridClick (Some n) (handleGridClick (Some n) s))) =
      set (drawnNumbers s))
   \<and> (set_has (drawnNumbers s) (Num n) \<longrightarrow>
        \<not> set_has (drawnNumbers (handleGridClick (Some n) s)) (Num n)
        \<and> set (drawnNumbers (handleGridClick (Some n) s)) = set (drawnNumbers s) - {Num n})"
proof (intro conjI impI)
  assume le: "set_size (drawnNumbers s) \<le> 6"
  show "set (drawnNumbers (handleGridClick (Some n) (handleGridClick (Some n) s))) =
      set (drawnNumbers s)"
  proof (cases "Num n \<in> set (drawnNumbers s)")
    case True
    then have "length (removeAll (Num n) (drawnNumbers s)) < length (drawnNumbers s)"
      by (rule length_removeAll_less)
    with le have "length (removeAll (Num n) (drawnNumbers s)) < 6"
      by (simp add: set_size_def)
    with True show ?thesis
      by (auto simp: handleGridClick_drawn)
  next
    case False
    then show ?thesis
      by (simp add: handleGridClick_drawn)
  qed
next
  assume "set_has (drawnNumbers s) (Num n)"
  then show "\<not> set_has (drawnNumbers (handleGridClick (Some n) s)) (Num n)"
    by (simp add: handleGridClick_drawn set_has_def)
next
  assume "set_has (drawnNumbers s) (Num n)"
  then show "set (drawnNumbers (handleGridClick (Some n) s)) = set (drawnNumbers s) - {Num n}"
    by (simp add: handleGridClick_drawn set_has_def)
qed

theorem toggle_twice_restores_selection_witness:
  "set (drawnNumbers (handleGridClick (Some 2) (handleGridClick (Some 2)
        (run (clicks [1, 2, 3]) (init False ticket_A))))) = {Num 1, Num 2, Num 3}
   \<and> drawnNumbers (handleGridClick (Some 2) (run (clicks [1, 2, 3]) (init False ticket_A))) =
       [Num 1, Num 3]"
proof -
  have sel: "drawnNumbers (run (clicks [1, 2, 3]) (init False ticket_A)) =
       [Num 1, Num 2, Num 3]"
    by code_simp
  have one: "drawnNumbers (handleGridClick (Some 2)
        (run (clicks [1, 2, 3]) (init False ticket_A))) = [Num 1, Num 3]"
    by code_simp
  from toggle_twice_restores_selection
    [of "run (clicks [1, 2, 3]) (init False ticket_A)" 2] sel one
  show ?thesis by (simp add: set_size_def set_has_def)
qed

section \<open>The table: sort and tallies\<close>

lemma sort_insert_insort_key:
  "sort_insert (\<lambda>a b. int (f b) - int (f a)) x ys = insort_key (\<lambda>g. - int (f g)) x ys"
  by (induction ys) simp_all

lemma array_sort_sort_key:
  "array_sort (\<lambda>a b. int (f b) - int (f a)) xs = sort_key (\<lambda>g. - int (f g)) xs"
  unfolding array_sort_def
  by (induction xs) (simp_all add: sort_insert_insort_key)

lemma array_sort_sorted:
  "sorted_wrt (\<lambda>a b. f b \<le> f a) (array_sort (\<lambda>a b. int (f b) - int (f a)) xs)"
proof -
  have "sorted (map (\<lambda>g. - int (f g)) (sort_key (\<lambda>g. - int (f g)) xs))"
    by (rule sorted_sort_key)
  then show ?thesis
    by (simp add: array_sort_sort_key sorted_map)
qed

lemma array_sort_stable:
  "filter (\<lambda>g. f g = k) (array_sort (\<lambda>a b. int (f b) - int (f a)) xs) =
   filter (\<lambda>g. f g = k) xs"
proof -
  have "filter (\<lambda>g. - int (f g) = - int k) (sort_key (\<lambda>g. - int (f g)) xs) =
        filter (\<lambda>g. - int (f g) = - int k) xs"
    by (rule sort_key_stable)
  then show ?thesis
    by (simp add: array_sort_sort_key)
qed

lemma array_sort_mset:
  "mset (array_sort (\<lambda>a b. int (f b) - int (f a)) xs) = mset xs"
  by (simp add: array_sort_sort_key)

lemma array_sort_set:
  "set (array_sort (\<lambda>a b. int (f b) - int (f a)) xs) = set xs"
  by (simp add: array_sort_sort_key)

lemma calcHits_fields [simp]:
  "hits (calcHits d g) = filter (\<lambda>num. num \<in> set d) (numbers g)"
  "hitsCount (calcHits d g) = length (filter (\<lambda>num. num \<in> set d) (numbers g))"
  "game_id (calcHits d g) = game_id g"
  "numbers (calcHits d g) = numbers g"
  "sanitizedId (calcHits d g) = sanitizedId g"
  "source (calcHits d g) = source g"
  by (simp_all add: calcHits_def set_has_def Let_def)

lemma gamesToRender_subset:
  "set (gamesToRender s) \<subseteq> calcHits (drawnNumbers s) ` set (GAMES s)"
  by (auto simp: gamesToRender_def Let_def array_sort_set)

lemma tallyGame_low:
  "hitsCount g < 4 \<Longrightarrow> tallyGame g t = Inr (t\<lparr>tableHTML := tableHTML t @ [g]\<rparr>)"
  by (simp add: tallyGame_def)

lemma tallyGame_error:
  "6 < hitsCount g \<Longrightarrow> tallyGame g t = Inl TypeError"
  by (simp add: tallyGame_def tier_get_def)

lemma forEach_tally_error:
  "\<exists>g\<in>set xs. 6 < hitsCount g \<Longrightarrow> forEach_tally xs t = Inl TypeError"
proof (induction xs arbitrary: t)
  case Nil
  then show ?case by simp
next
  case (Cons g xs)
  show ?case
  proof (cases "tallyGame g t")
    case (Inl e)
    then have "e = TypeError"
      by (auto simp: tallyGame_def split: if_splits option.splits prod.splits)
    with Inl show ?thesis by simp
  next
    case (Inr t')
    then have "\<not> 6 < hitsCount g"
      using tallyGame_error [of g t] by auto
    with Cons.prems have "\<exists>g\<in>set xs. 6 < hitsCount g" by auto
    with Inr Cons.IH show ?thesis by simp
  qed
qed

lemma Max_step:
  fixes b h :: nat
  assumes "finite S"
  shows "Max (insert (if b < h then h else b) S) = Max (insert b (insert h S))"
proof (cases "S = {}")
  case True
  then show ?thesis by (simp add: max_def)
next
  case False
  with assms show ?thesis by (simp add: max_def)
qed

lemma tallied_Nil: "tallied [] t = t"
  by (simp add: tallied_def)

lemma tallied_Cons:
  assumes "tallyGame g t = Inr t'"
  shows "tallied (g # xs) t = tallied xs t'"
proof -
  have fin: "finite (hitsCount ` {g \<in> set xs. 4 \<le> hitsCount g})" by simp
  have set_eq: "{x. (x = g \<or> x \<in> set xs) \<and> 4 \<le> hitsCount x} =
    (if 4 \<le> hitsCount g then insert g {x \<in> set xs. 4 \<le> hitsCount x}
     else {x \<in> set xs. 4 \<le> hitsCount x})"
    by auto
  consider "hitsCount g < 4" | "hitsCount g = 4" | "hitsCount g = 5" | "hitsCount g = 6"
    | "6 < hitsCount g" by linarith
  then show ?thesis
  proof cases
    case 1
    with assms have "t' = t\<lparr>tableHTML := tableHTML t @ [g]\<rparr>"
      by (simp add: tallyGame_low)
    with 1 show ?thesis
      by (simp add: tallied_def set_eq)
  next
    case 2
    with assms have "t' = t\<lparr>prizeCounts := (prizeCounts t)\<lparr>t4 := t4 (prizeCounts t) + 1\<rparr>,
        winningGameIds := (winningGameIds t)\<lparr>t4 := t4 (winningGameIds t) @ [game_id g]\<rparr>,
        bestPrizeThisCheck := (if bestPrizeThisCheck t < 4 then 4 else bestPrizeThisCheck t),
        tableHTML := tableHTML t @ [g]\<rparr>"
      by (auto simp: tallyGame_def tier_get_def tier_set_def)
    with 2 Max_step [OF fin, of "bestPrizeThisCheck t" 4] show ?thesis
      by (simp add: tallied_def set_eq)
  next
    case 3
    with assms have "t' = t\<lparr>prizeCounts := (prizeCounts t)\<lparr>t5 := t5 (prizeCounts t) + 1\<rparr>,
        winningGameIds := (winningGameIds t)\<lparr>t5 := t5 (winningGameIds t) @ [game_id g]\<rparr>,
        bestPrizeThisCheck := (if bestPrizeThisCheck t < 5 then 5 else bestPrizeThisCheck t),
        tableHTML := tableHTML t @ [g]\<rparr>"
      by (auto simp: tallyGame_def tier_get_def tier_set_def)
    with 3 Max_step [OF fin, of "bestPrizeThisCheck t" 5] show ?thesis
      by (simp add: tallied_def set_eq)
  next
    case 4
    with assms have "t' = t\<lparr>prizeCounts := (prizeCounts t)\<lparr>t6 := t6 (prizeCounts t) + 1\<rparr>,
        winningGameIds := (winningGameIds t)\<lparr>t6 := t6 (winningGameIds t) @ [game_id g]\<rparr>,
        bestPrizeThisCheck := (if bestPrizeThisCheck t < 6 then 6 else bestPrizeThisCheck t),
        tableHTML := tableHTML t @ [g]\<rparr>"
      by (auto simp: tallyGame_def tier_get_def tier_set_def)
    with 4 Max_step [OF fin, of "bestPrizeThisCheck t" 6] show ?thesis
      by (simp add: tallied_def set_eq)
  next
    case 5
    with assms show ?thesis by (simp add: tallyGame_error)
  qed
qed


lemma forEach_tally_tallied:
  "\<forall>g\<in>set xs. hitsCount g \<le> 6 \<Longrightarrow> forEach_tally xs t = Inr (tallied xs t)"
proof (induction xs arbitrary: t)
  case Nil
  then show ?case by (simp add: tallied_Nil)
next
  case (Cons g xs)
  then have "hitsCount g \<le> 6" by simp
  then consider "hitsCount g < 4" | "hitsCount g = 4" | "hitsCount g = 5" | "hitsCount g = 6"
    by linarith
  then have "\<exists>t'. tallyGame g t = Inr t'"
    by cases (simp_all add: tallyGame_def tier_get_def)
  then obtain t' where t': "tallyGame g t = Inr t'" ..
  with Cons show ?case
    by (simp add: tallied_Cons)
qed

lemma forEach_tally_cases:
  "forEach_tally xs t =
     (if \<forall>g\<in>set xs. hitsCount g \<le> 6 then Inr (tallied xs t) else Inl TypeError)"
  using forEach_tally_tallied [of xs t] forEach_tally_error [of xs t]
  by (auto simp: not_le)

lemma gamesToRender_off:
  "\<not> filterSwitch s \<Longrightarrow> gamesToRender s = map (calcHits (drawnNumbers s)) (GAMES s)"
  by (simp add: gamesToRender_def)

lemma gamesToRender_on:
  "filterSwitch s \<Longrightarrow> gamesToRender s =
     array_sort (\<lambda>a b. int (hitsCount b) - int (hitsCount a))
       (filter (\<lambda>game. 0 < hitsCount game) (map (calcHits (drawnNumbers s)) (GAMES s)))"
  by (simp add: gamesToRender_def)

lemma gamesToRender_hits:
  assumes "r \<in> set (gamesToRender s)"
  shows "hits r = filter (\<lambda>num. num \<in> set (drawnNumbers s)) (numbers r)
     \<and> hitsCount r = length (hits r)"
proof -
  from assms gamesToRender_subset obtain g where "r = calcHits (drawnNumbers s) g"
    by blast
  then show ?thesis by simp
qed

lemma checkGames_rows:
  "checkGames s = Inr t \<Longrightarrow> tableHTML t = gamesToRender s"
  by (auto simp: checkGames_def forEach_tally_cases tallied_def tally0_def split: if_splits)

lemma checkGames_returns:
  assumes "\<forall>g\<in>set (GAMES s). length (filter (\<lambda>num. num \<in> set (drawnNumbers s)) (numbers g)) \<le> 6"
  shows "checkGames s = Inr (tallied (gamesToRender s) tally0)"
proof -
  have "\<forall>r\<in>set (gamesToRender s). hitsCount r \<le> 6"
  proof
    fix r assume "r \<in> set (gamesToRender s)"
    with gamesToRender_subset obtain g where "g \<in> set (GAMES s)" "r = calcHits (drawnNumbers s) g"
      by blast
    with assms show "hitsCount r \<le> 6" by simp
  qed
  then show ?thesis
    by (simp add: checkGames_def forEach_tally_cases)
qed

lemma updateWinnerUI_table [simp]:
  "gamesTableBody (updateWinnerUI pc ids b s) = gamesTableBody s"
  by (simp add: updateWinnerUI_def Let_def)

lemma renderGamesTable_table:
  "checkGames s = Inr t \<Longrightarrow>
   gamesTableBody (renderGamesTable s) =
     (if gamesToRender s = [] then NoGamesMessage else Rows (gamesToRender s))"
  by (simp add: renderGamesTable_def checkGames_rows)

lemma tallies_same_in_both_modes:
  "map_sum id (\<lambda>t. (prizeCounts t, winningGameIds t, bestPrizeThisCheck t))
     (checkGames (s\<lparr>filterSwitch := True\<rparr>)) =
   map_sum id (\<lambda>t. (prizeCounts t, winningGameIds t, bestPrizeThisCheck t))
     (checkGames (s\<lparr>filterSwitch := False\<rparr>))"
proof -
  let ?xs = "map (calcHits (drawnNumbers s)) (GAMES s)"
  let ?ys = "array_sort (\<lambda>a b. int (hitsCount b) - int (hitsCount a))
       (filter (\<lambda>game. 0 < hitsCount game) ?xs)"
  have on: "gamesToRender (s\<lparr>filterSwitch := True\<rparr>) = ?ys"
    by (simp add: gamesToRender_def)
  have off: "gamesToRender (s\<lparr>filterSwitch := False\<rparr>) = ?xs"
    by (simp add: gamesToRender_def)
  have set_ys: "set ?ys = {g \<in> set ?xs. 0 < hitsCount g}"
    by (simp add: array_sort_set)
  have tier: "filter (\<lambda>g. hitsCount g = k) ?ys = filter (\<lambda>g. hitsCount g = k) ?xs"
    if "0 < k" for k
  proof -
    have "filter (\<lambda>g. hitsCount g = k) ?ys =
          filter (\<lambda>g. hitsCount g = k) (filter (\<lambda>game. 0 < hitsCount game) ?xs)"
      by (rule array_sort_stable)
    also have "\<dots> = filter (\<lambda>g. hitsCount g = k) ?xs"
      using that by (simp del: filter_map add: conj_commute cong: conj_cong)
    finally show ?thesis .
  qed
  have winners: "{g \<in> set ?ys. 4 \<le> hitsCount g} = {g \<in> set ?xs. 4 \<le> hitsCount g}"
    unfolding set_ys by auto
  have ok: "(\<forall>g\<in>set ?ys. hitsCount g \<le> 6) = (\<forall>g\<in>set ?xs. hitsCount g \<le> 6)"
    unfolding set_ys by (metis (mono_tags, lifting) mem_Collect_eq not_gr_zero zero_le)
  have "map_sum id (\<lambda>t. (prizeCounts t, winningGameIds t, bestPrizeThisCheck t))
          (forEach_tally ?ys tally0) =
        map_sum id (\<lambda>t. (prizeCounts t, winningGameIds t, bestPrizeThisCheck t))
          (forEach_tally ?xs tally0)"
    unfolding forEach_tally_cases ok
    by (simp add: tallied_def tier winners del: set_filter set_map filter_map)
  then show ?thesis
    by (simp only: checkGames_def on off)
qed

text \<open>
  Claim C1. Every game that step 1 and 2 of \<^verbatim>\<open>renderGamesTable\<close> keep carries as
  \<^verbatim>\<open>hits\<close> the numbers of the game that are in the drawn selection, in the order of
  the game, and as \<^verbatim>\<open>hitsCount\<close> their number; with the filter off these are all the
  games, in load order; and they are the rows of the table whenever the check
  returns, which it does when no game has more than 6 hits. With the tickets A = [1,2,3,4,5,6] and B = [1,2,3,4,60,59] loaded and
  1 to 6 selected, A has 6 hits, B has 4, the prize counts are 1 Quadra, 0 Quina,
  1 Sena, and the best tier is 6.
\<close>

theorem hits_are_the_drawn_numbers_of_each_game:
  "(\<forall>r\<in>set (gamesToRender s).
      hits r = filter (\<lambda>num. num \<in> set (drawnNumbers s)) (numbers r)
      \<and> hitsCount r = length (hits r))
   \<and> (\<not> filterSwitch s \<longrightarrow>
        map (\<lambda>r. (game_id r, numbers r, hits r, hitsCount r)) (gamesToRender s) =
        map (\<lambda>g. (game_id g, numbers g,
                   filter (\<lambda>num. num \<in> set (drawnNumbers s)) (numbers g),
                   length (filter (\<lambda>num. num \<in> set (drawnNumbers s)) (numbers g))))
          (GAMES s))
   \<and> (checkGames s = Inr t \<longrightarrow> tableHTML t = gamesToRender s)
   \<and> ((\<forall>g\<in>set (GAMES s).
          length (filter (\<lambda>num. num \<in> set (drawnNumbers s)) (numbers g)) \<le> 6) \<longrightarrow>
        (\<exists>t. checkGames s = Inr t))
   \<and> map_sum id (\<lambda>t. (map (\<lambda>r. (game_id r, hitsCount r, hits r)) (tableHTML t),
                   prizeCounts t, winningGameIds t, bestPrizeThisCheck t))
       (checkGames (run (clicks [1, 2, 3, 4, 5, 6]) (init False scenario))) =
      Inr ([(''A'', 6, [Num 1, Num 2, Num 3, Num 4, Num 5, Num 6]),
            (''B'', 4, [Num 1, Num 2, Num 3, Num 4])],
           \<lparr>t4 = 1, t5 = 0, t6 = 1\<rparr>, \<lparr>t4 = [''B''], t5 = [], t6 = [''A'']\<rparr>, 6)"
proof (intro conjI)
  show "(\<forall>g\<in>set (GAMES s).
          length (filter (\<lambda>num. num \<in> set (drawnNumbers s)) (numbers g)) \<le> 6) \<longrightarrow>
        (\<exists>t. checkGames s = Inr t)"
    using checkGames_returns [of s] by blast
  show "\<forall>r\<in>set (gamesToRender s).
      hits r = filter (\<lambda>num. num \<in> set (drawnNumbers s)) (numbers r)
      \<and> hitsCount r = length (hits r)"
    using gamesToRender_hits by blast
  show "\<not> filterSwitch s \<longrightarrow>
        map (\<lambda>r. (game_id r, numbers r, hits r, hitsCount r)) (gamesToRender s) =
        map (\<lambda>g. (game_id g, numbers g,
                   filter (\<lambda>num. num \<in> set (drawnNumbers s)) (numbers g),
                   length (filter (\<lambda>num. num \<in> set (drawnNumbers s)) (numbers g))))
          (GAMES s)"
    by (simp add: gamesToRender_off)
  show "checkGames s = Inr t \<longrightarrow> tableHTML t = gamesToRender s"
    by (simp add: checkGames_rows)
  show "map_sum id (\<lambda>t. (map (\<lambda>r. (game_id r, hitsCount r, hits r)) (tableHTML t),
                   prizeCounts t, winningGameIds t, bestPrizeThisCheck t))
       (checkGames (run (clicks [1, 2, 3, 4, 5, 6]) (init False scenario))) =
      Inr ([(''A'', 6, [Num 1, Num 2, Num 3, Num 4, Num 5, Num 6]),
            (''B'', 4, [Num 1, Num 2, Num 3, Num 4])],
           \<lparr>t4 = 1, t5 = 0, t6 = 1\<rparr>, \<lparr>t4 = [''B''], t5 = [], t6 = [''A'']\<rparr>, 6)"
    by code_simp
qed

theorem hits_are_the_drawn_numbers_of_each_game_witness:
  "\<not> filterSwitch (run (clicks [1, 2, 3, 4]) (init False scenario))
   \<and> map (\<lambda>r. (game_id r, numbers r, hits r, hitsCount r))
       (gamesToRender (run (clicks [1, 2, 3, 4]) (init False scenario))) =
      [(''A'', [Num 1, Num 2, Num 3, Num 4, Num 5, Num 6], [Num 1, Num 2, Num 3, Num 4], 4),
       (''B'', [Num 1, Num 2, Num 3, Num 4, Num 60, Num 59], [Num 1, Num 2, Num 3, Num 4], 4)]"
proof -
  have off: "\<not> filterSwitch (run (clicks [1, 2, 3, 4]) (init False scenario))"
    by code_simp
  have games: "map (\<lambda>g. (game_id g, numbers g)) (GAMES (run (clicks [1, 2, 3, 4]) (init False scenario))) =
      [(''A'', [Num 1, Num 2, Num 3, Num 4, Num 5, Num 6]),
       (''B'', [Num 1, Num 2, Num 3, Num 4, Num 60, Num 59])]"
    by code_simp
  have drawn: "drawnNumbers (run (clicks [1, 2, 3, 4]) (init False scenario)) =
      [Num 1, Num 2, Num 3, Num 4]"
    by code_simp
  from hits_are_the_drawn_numbers_of_each_game
    [of "run (clicks [1, 2, 3, 4]) (init False scenario)"] off
  have "map (\<lambda>r. (game_id r, numbers r, hits r, hitsCount r))
          (gamesToRender (run (clicks [1, 2, 3, 4]) (init False scenario))) =
        map (\<lambda>g. (game_id g, numbers g,
                   filter (\<lambda>num. num \<in> set (drawnNumbers
                     (run (clicks [1, 2, 3, 4]) (init False scenario)))) (numbers g),
                   length (filter (\<lambda>num. num \<in> set (drawnNumbers
                     (run (clicks [1, 2, 3, 4]) (init False scenario)))) (numbers g))))
          (GAMES (run (clicks [1, 2, 3, 4]) (init False scenario)))"
    by blast
  then have "map (\<lambda>r. (game_id r, numbers r, hits r, hitsCount r))
          (gamesToRender (run (clicks [1, 2, 3, 4]) (init False scenario))) =
        map (\<lambda>g. (game_id g, numbers g,
                   filter (\<lambda>num. num \<in> set [Num 1, Num 2, Num 3, Num 4]) (numbers g),
                   length (filter (\<lambda>num. num \<in> set [Num 1, Num 2, Num 3, Num 4]) (numbers g))))
          (GAMES (run (clicks [1, 2, 3, 4]) (init False scenario)))"
    unfolding drawn .
  also have "\<dots> = map (\<lambda>p. (fst p, snd p,
                   filter (\<lambda>num. num \<in> set [Num 1, Num 2, Num 3, Num 4]) (snd p),
                   length (filter (\<lambda>num. num \<in> set [Num 1, Num 2, Num 3, Num 4]) (snd p))))
          (map (\<lambda>g. (game_id g, numbers g)) (GAMES (run (clicks [1, 2, 3, 4]) (init False scenario))))"
    by (simp add: o_def)
  also have "\<dots> =
      [(''A'', [Num 1, Num 2, Num 3, Num 4, Num 5, Num 6], [Num 1, Num 2, Num 3, Num 4], 4),
       (''B'', [Num 1, Num 2, Num 3, Num 4, Num 60, Num 59], [Num 1, Num 2, Num 3, Num 4], 4)]"
    unfolding games by simp
  finally show ?thesis using off by simp
qed

text \<open>
  Claim C8. With the filter switch on, the games kept for the table are exactly
  the games with at least one hit (each as often as it is loaded), in order of
  decreasing \<^verbatim>\<open>hitsCount\<close>, and the games of any one hit count stand in load order.
  They are the rows written to the table whenever the check returns, which it
  does when no game has more than 6 hits.
\<close>

theorem filtered_rows_sorted_by_hits_stable:
  assumes "filterSwitch s"
  shows "mset (gamesToRender s) =
      mset (filter (\<lambda>g. 0 < hitsCount g) (map (calcHits (drawnNumbers s)) (GAMES s)))
    \<and> sorted_wrt (\<lambda>a b. hitsCount b \<le> hitsCount a) (gamesToRender s)
    \<and> (\<forall>k. filter (\<lambda>g. hitsCount g = k) (gamesToRender s) =
             filter (\<lambda>g. hitsCount g = k)
               (filter (\<lambda>g. 0 < hitsCount g) (map (calcHits (drawnNumbers s)) (GAMES s))))
    \<and> (checkGames s = Inr t \<longrightarrow>
          tableHTML t = gamesToRender s
          \<and> gamesTableBody (renderGamesTable s) =
              (if gamesToRender s = [] then NoGamesMessage else Rows (gamesToRender s)))
    \<and> ((\<forall>g\<in>set (GAMES s).
           length (filter (\<lambda>num. num \<in> set (drawnNumbers s)) (numbers g)) \<le> 6) \<longrightarrow>
         (\<exists>t. checkGames s = Inr t))"
proof (intro conjI allI impI)
  show "mset (gamesToRender s) =
      mset (filter (\<lambda>g. 0 < hitsCount g) (map (calcHits (drawnNumbers s)) (GAMES s)))"
    using assms by (simp only: gamesToRender_on array_sort_mset)
  show "sorted_wrt (\<lambda>a b. hitsCount b \<le> hitsCount a) (gamesToRender s)"
    using assms by (simp only: gamesToRender_on array_sort_sorted)
  show "filter (\<lambda>g. hitsCount g = k) (gamesToRender s) =
             filter (\<lambda>g. hitsCount g = k)
               (filter (\<lambda>g. 0 < hitsCount g) (map (calcHits (drawnNumbers s)) (GAMES s)))"
    for k
    using assms by (simp only: gamesToRender_on array_sort_stable)
  show "tableHTML t = gamesToRender s" if "checkGames s = Inr t"
    using that by (rule checkGames_rows)
  show "gamesTableBody (renderGamesTable s) =
              (if gamesToRender s = [] then NoGamesMessage else Rows (gamesToRender s))"
    if "checkGames s = Inr t"
    using that by (rule renderGamesTable_table)
  show "\<exists>t. checkGames s = Inr t"
    if "\<forall>g\<in>set (GAMES s).
           length (filter (\<lambda>num. num \<in> set (drawnNumbers s)) (numbers g)) \<le> 6"
    using checkGames_returns [OF that] by blast
qed

theorem filtered_rows_sorted_by_hits_stable_witness:
  "filterSwitch (run (FilterChange # clicks [1, 2, 3, 4, 5, 6]) (init False four_tickets))
   \<and> map (\<lambda>g. (game_id g, hitsCount g))
       (gamesToRender (run (FilterChange # clicks [1, 2, 3, 4, 5, 6]) (init False four_tickets))) =
      [(''Q'', 6), (''P'', 4), (''R'', 4)]
   \<and> sorted_wrt (\<lambda>a b. hitsCount b \<le> hitsCount a)
       (gamesToRender (run (FilterChange # clicks [1, 2, 3, 4, 5, 6]) (init False four_tickets)))
   \<and> map game_id (filter (\<lambda>g. hitsCount g = 4)
       (gamesToRender (run (FilterChange # clicks [1, 2, 3, 4, 5, 6]) (init False four_tickets)))) =
      [''P'', ''R'']"
proof -
  have on: "filterSwitch (run (FilterChange # clicks [1, 2, 3, 4, 5, 6]) (init False four_tickets))"
    by code_simp
  have rows: "map (\<lambda>g. (game_id g, hitsCount g))
       (gamesToRender (run (FilterChange # clicks [1, 2, 3, 4, 5, 6]) (init False four_tickets))) =
      [(''Q'', 6), (''P'', 4), (''R'', 4)]"
    by code_simp
  have quadras: "map game_id (filter (\<lambda>g. hitsCount g = 4)
       (gamesToRender (run (FilterChange # clicks [1, 2, 3, 4, 5, 6]) (init False four_tickets)))) =
      [''P'', ''R'']"
    by code_simp
  from filtered_rows_sorted_by_hits_stable [OF on]
  have "sorted_wrt (\<lambda>a b. hitsCount b \<le> hitsCount a)
       (gamesToRender (run (FilterChange # clicks [1, 2, 3, 4, 5, 6]) (init False four_tickets)))"
    by blast
  with on rows quadras show ?thesis by blast
qed

text \<open>
  Claim C9, as the code has it. The prize counts, the lists of winning game ids of
  each tier and the best tier are the same with the filter switch on and off,
  for every list of games and every selection (and when a game has more than 6
  hits the same error is thrown in both modes): the filter only drops games
  without a hit, and the sort keeps the games of one hit count in load order.
  What differs is the order of the rows of the table. With the four tickets
  P, Q, N, R and 1 to 6 selected the rows are Q, P, R with the filter on and
  P, Q, N, R with it off, and the lists are Quadra: P, R and Sena: Q in both.
\<close>

theorem winner_lists_same_with_and_without_filter:
  "map_sum id (\<lambda>t. (prizeCounts t, winningGameIds t, bestPrizeThisCheck t))
     (checkGames (s\<lparr>filterSwitch := True\<rparr>)) =
   map_sum id (\<lambda>t. (prizeCounts t, winningGameIds t, bestPrizeThisCheck t))
     (checkGames (s\<lparr>filterSwitch := False\<rparr>))
   \<and> map game_id (gamesToRender
        ((run (clicks [1, 2, 3, 4, 5, 6]) (init False four_tickets))\<lparr>filterSwitch := True\<rparr>)) =
      [''Q'', ''P'', ''R'']
   \<and> map game_id (gamesToRender
        ((run (clicks [1, 2, 3, 4, 5, 6]) (init False four_tickets))\<lparr>filterSwitch := False\<rparr>)) =
      [''P'', ''Q'', ''N'', ''R'']
   \<and> map_sum id winningGameIds (checkGames
        ((run (clicks [1, 2, 3, 4, 5, 6]) (init False four_tickets))\<lparr>filterSwitch := True\<rparr>)) =
      Inr \<lparr>t4 = [''P'', ''R''], t5 = [], t6 = [''Q'']\<rparr>
   \<and> map_sum id winningGameIds (checkGames
        ((run (clicks [1, 2, 3, 4, 5, 6]) (init False four_tickets))\<lparr>filterSwitch := False\<rparr>)) =
      Inr \<lparr>t4 = [''P'', ''R''], t5 = [], t6 = [''Q'']\<rparr>"
proof (intro conjI)
  show "map_sum id (\<lambda>t. (prizeCounts t, winningGameIds t, bestPrizeThisCheck t))
     (checkGames (s\<lparr>filterSwitch := True\<rparr>)) =
   map_sum id (\<lambda>t. (prizeCounts t, winningGameIds t, bestPrizeThisCheck t))
     (checkGames (s\<lparr>filterSwitch := False\<rparr>))"
    by (rule tallies_same_in_both_modes)
  show "map game_id (gamesToRender
        ((run (clicks [1, 2, 3, 4, 5, 6]) (init False four_tickets))\<lparr>filterSwitch := True\<rparr>)) =
      [''Q'', ''P'', ''R'']"
    by code_simp
  show "map game_id (gamesToRender
        ((run (clicks [1, 2, 3, 4, 5, 6]) (init False four_tickets))\<lparr>filterSwitch := False\<rparr>)) =
      [''P'', ''Q'', ''N'', ''R'']"
    by code_simp
  show "map_sum id winningGameIds (checkGames
        ((run (clicks [1, 2, 3, 4, 5, 6]) (init False four_tickets))\<lparr>filterSwitch := True\<rparr>)) =
      Inr \<lparr>t4 = [''P'', ''R''], t5 = [], t6 = [''Q'']\<rparr>"
    by code_simp
  show "map_sum id winningGameIds (checkGames
        ((run (clicks [1, 2, 3, 4, 5, 6]) (init False four_tickets))\<lparr>filterSwitch := False\<rparr>)) =
      Inr \<lparr>t4 = [''P'', ''R''], t5 = [], t6 = [''Q'']\<rparr>"
    by code_simp
qed

text \<open>
  The claim as written says that for some games and selection the lists of
  winning game ids differ between the two modes. There is none.
\<close>

theorem winner_lists_differ_counterexample:
  "\<not> (\<exists>s. map_sum id winningGameIds (checkGames (s\<lparr>filterSwitch := True\<rparr>)) \<noteq>
            map_sum id winningGameIds (checkGames (s\<lparr>filterSwitch := False\<rparr>)))"
proof -
  have "map_sum id winningGameIds (checkGames (s\<lparr>filterSwitch := True\<rparr>)) =
        map_sum id winningGameIds (checkGames (s\<lparr>filterSwitch := False\<rparr>))" for s
  proof -
    have "map_sum id (\<lambda>p. fst (snd p))
            (map_sum id (\<lambda>t. (prizeCounts t, winningGameIds t, bestPrizeThisCheck t))
               (checkGames (s\<lparr>filterSwitch := True\<rparr>))) =
          map_sum id (\<lambda>p. fst (snd p))
            (map_sum id (\<lambda>t. (prizeCounts t, winningGameIds t, bestPrizeThisCheck t))
               (checkGames (s\<lparr>filterSwitch := False\<rparr>)))"
      by (simp only: tallies_same_in_both_modes)
    then show ?thesis
      by (simp add: sum.map_comp o_def id_def)
  qed
  then show ?thesis by blast
qed

section \<open>The loader\<close>

lemma results_cases:
  assumes "\<And>x. x \<in> set xs \<Longrightarrow>
    (ok x \<longrightarrow> (\<exists>y. f x = Inr y)) \<and> (\<not> ok x \<longrightarrow> f x = Inl e)"
  shows "results (map f xs) =
    (if list_all ok xs then Inr (map (\<lambda>x. projr (f x)) xs) else Inl e)"
  using assms
proof (induction xs)
  case Nil
  then show ?case by simp
next
  case (Cons a xs)
  then have a: "(ok a \<longrightarrow> (\<exists>y. f a = Inr y)) \<and> (\<not> ok a \<longrightarrow> f a = Inl e)"
    and IH: "results (map f xs) =
      (if list_all ok xs then Inr (map (\<lambda>x. projr (f x)) xs) else Inl e)"
    by simp_all
  show ?case
  proof (cases "ok a")
    case True
    with a obtain y where "f a = Inr y" by blast
    with True IH show ?thesis by simp
  next
    case False
    with a have "f a = Inl e" by blast
    with False show ?thesis by simp
  qed
qed

lemma js_toString_cases:
  "(convertible v \<longrightarrow> (\<exists>str. js_toString v = Inr str))
   \<and> (\<not> convertible v \<longrightarrow> js_toString v = Inl TypeError)"
proof (induction v)
  case (JArray xs)
  have "results (map (\<lambda>x. if x = JNull then Inr [] else js_toString x) xs) =
    (if list_all convertible xs
     then Inr (map (\<lambda>x. projr (if x = JNull then Inr [] else js_toString x)) xs)
     else Inl TypeError)"
  proof (rule results_cases)
    fix x assume "x \<in> set xs"
    with JArray show "(convertible x \<longrightarrow>
        (\<exists>y. (if x = JNull then Inr [] else js_toString x) = Inr y))
      \<and> (\<not> convertible x \<longrightarrow>
        (if x = JNull then Inr [] else js_toString x) = Inl TypeError)"
      by (cases "x = JNull") simp_all
  qed
  then show ?case by simp
qed simp_all

lemma parseInt_cases:
  "(convertible v \<longrightarrow> (\<exists>n. parseInt v = Inr n))
   \<and> (\<not> convertible v \<longrightarrow> parseInt v = Inl TypeError)"
  using js_toString_cases [of v]
  by (auto simp: parseInt_def)

lemma parseInt_convertible:
  "convertible v \<Longrightarrow> parseInt v = Inr (projr (parseInt v))"
  using parseInt_cases [of v] by auto

lemma parse_all:
  "results (map parseInt nums) =
     (if list_all convertible nums then Inr (map (\<lambda>num. projr (parseInt num)) nums)
      else Inl TypeError)"
  by (rule results_cases) (rule parseInt_cases)

lemma forEach_bets_arrays:
  "list_all (\<lambda>b. isArray b \<and> list_all convertible (elements b)) bs \<Longrightarrow>
   forEach_bets ident bs index acc = Inr (acc @ map (betGame ident) (enumerate index bs))"
proof (induction bs arbitrary: index acc)
  case Nil
  then show ?case by simp
next
  case (Cons b bs)
  then obtain nums where "b = JArray nums"
    by (cases b) (simp_all add: isArray_def)
  with Cons show ?case
    by (simp add: betGame_def elements_def parse_all)
qed

lemma forEach_bets_error:
  "\<not> list_all (\<lambda>b. isArray b \<and> list_all convertible (elements b)) bs \<Longrightarrow>
   forEach_bets ident bs index acc = Inl TypeError"
proof (induction bs arbitrary: index acc)
  case Nil
  then show ?case by simp
next
  case (Cons b bs)
  then show ?case
    by (cases b) (simp_all add: isArray_def elements_def parse_all)
qed

lemma elements_JArray: "elements (JArray xs) = xs"
  by (simp add: elements_def)

lemma isMultiBet_isArray: "isMultiBet bets \<Longrightarrow> isArray bets"
  by (cases bets) (simp_all add: isMultiBet_def isArray_def)

lemma processEntry_cases:
  "processEntry entry acc =
     (if loadable entry then Inr (acc @ entryGames entry) else Inl TypeError)"
proof (cases "fst entry = ''_comment''")
  case True
  then show ?thesis
    by (simp add: processEntry_def loadable_def entryGames_def)
next
  case notc: False
  show ?thesis
  proof (cases "isMultiBet (snd entry)")
    case True
    then obtain bs where bs: "snd entry = JArray bs"
      by (cases "snd entry") (simp_all add: isMultiBet_def)
    with notc True show ?thesis
      by (simp add: processEntry_def loadable_def entryGames_def elements_def
          forEach_bets_arrays forEach_bets_error Let_def)
  next
    case False
    with notc show ?thesis
      by (cases "snd entry")
         (simp_all add: processEntry_def loadable_def entryGames_def elements_def
            isArray_def Let_def parse_all)
  qed
qed

lemma processEntries_cases:
  "processEntries entries acc =
     (if list_all loadable entries then Inr (acc @ concat (map entryGames entries))
      else Inl TypeError)"
  by (induction entries arbitrary: acc) (simp_all add: processEntry_cases)

lemma loadGames_cases:
  assumes "200 \<le> status" and "status \<le> 299"
  shows "loadGames (Response status (Some gamesData)) =
     (if list_all loadable (for_in gamesData)
      then Inr (concat (map entryGames (for_in gamesData))) else Inl TypeError)"
  using assms by (simp add: loadGames_def processEntries_cases)

lemma enumerate_map_fst: "map fst (enumerate n xs) = [n..<n + length xs]"
  by (simp add: enumerate_eq_zip)

lemma enumerate_map_snd: "map snd (enumerate n xs) = xs"
  by (simp add: enumerate_eq_zip)

lemma map_via_fst: "map (\<lambda>p. f (fst p)) ps = map f (map fst ps)"
  by (simp add: o_def)

lemma map_via_snd: "map (\<lambda>p. f (snd p)) ps = map f (map snd ps)"
  by (simp add: o_def)

lemma multi_ids:
  assumes "ident \<noteq> ''_comment''" "isMultiBet (JArray bs)"
  shows "map game_id (entryGames (ident, JArray bs)) =
      map (\<lambda>i. ident @ ''-'' @ show_nat (i + 1)) [0..<length bs]"
    and "map numbers (entryGames (ident, JArray bs)) =
      map (\<lambda>b. map (\<lambda>num. projr (parseInt num)) (elements b)) bs"
    and "map source (entryGames (ident, JArray bs)) = replicate (length bs) ident"
proof -
  have eg: "entryGames (ident, JArray bs) = map (betGame ident) (enumerate 0 bs)"
    using assms by (simp add: entryGames_def elements_def)
  have "map game_id (entryGames (ident, JArray bs)) =
        map (\<lambda>p. ident @ ''-'' @ show_nat (fst p + 1)) (enumerate 0 bs)"
    unfolding eg by (simp add: betGame_def o_def)
  also have "\<dots> = map (\<lambda>i. ident @ ''-'' @ show_nat (i + 1)) (map fst (enumerate 0 bs))"
    by (rule map_via_fst)
  also have "\<dots> = map (\<lambda>i. ident @ ''-'' @ show_nat (i + 1)) [0..<length bs]"
    by (simp add: enumerate_map_fst)
  finally show "map game_id (entryGames (ident, JArray bs)) =
      map (\<lambda>i. ident @ ''-'' @ show_nat (i + 1)) [0..<length bs]" .
  have "map numbers (entryGames (ident, JArray bs)) =
        map (\<lambda>p. map (\<lambda>num. projr (parseInt num)) (elements (snd p))) (enumerate 0 bs)"
    unfolding eg by (simp add: betGame_def o_def)
  also have "\<dots> = map (\<lambda>b. map (\<lambda>num. projr (parseInt num)) (elements b))
      (map snd (enumerate 0 bs))"
    by (rule map_via_snd)
  also have "\<dots> = map (\<lambda>b. map (\<lambda>num. projr (parseInt num)) (elements b)) bs"
    by (simp only: enumerate_map_snd)
  finally show "map numbers (entryGames (ident, JArray bs)) =
      map (\<lambda>b. map (\<lambda>num. projr (parseInt num)) (elements b)) bs" .
  show "map source (entryGames (ident, JArray bs)) = replicate (length bs) ident"
    unfolding eg by (simp add: betGame_def o_def map_replicate_const)
qed

lemma numbers_are_parsed:
  assumes "list_all (\<lambda>b. list_all convertible (elements b)) bs"
  shows "map (map Inr) (map (\<lambda>b. map (\<lambda>num. projr (parseInt num)) (elements b)) bs) =
     map (\<lambda>b. map parseInt (elements b)) bs"
  using assms
  by (induction bs) (simp_all add: list_all_iff parseInt_convertible [symmetric])

lemma toDouble_not_NaN: "toDouble i \<noteq> NaN"
  by (simp add: toDouble_def Let_def)

lemma parseInt_string_NaN:
  "(parseInt_string str = NaN) =
     (case dropSign (dropWhile isWhiteSpace str) of [] \<Rightarrow> True | c # _ \<Rightarrow> \<not> isDigit c)"
  by (simp add: parseInt_string_def Let_def toDouble_not_NaN takeWhile_eq_Nil_iff
      split: list.splits)

text \<open>
  Claim C2, as the code has it. When every entry of the collection loads (no
  multi-bet has an element that is not an array, and no bet holds a value that
  \<^verbatim>\<open>parseInt\<close> cannot convert to a string), the load returns, in the order of the
  entries, the games of each entry: the pass for \<^verbatim>\<open>_comment\<close> adds nothing; the pass
  for a multi-bet adds one game per inner array, in order, with the ids \<^verbatim>\<open>id-1\<close>,
  \<^verbatim>\<open>id-2\<close>, ..., the numbers \<^verbatim>\<open>parseInt\<close> returns for the values of each inner array
  and the ticket as source; the pass for any other array adds one game with the
  id of the ticket.
\<close>

theorem games_of_each_entry:
  assumes "200 \<le> status" and "status \<le> 299"
    and "list_all loadable (for_in gamesData)"
  shows "loadGames (Response status (Some gamesData)) =
      Inr (concat (map entryGames (for_in gamesData)))
    \<and> GAMES (fetchGames (Response status (Some gamesData)) s) =
      concat (map entryGames (for_in gamesData))
    \<and> processEntry (''_comment'', v) acc = Inr acc
    \<and> (ident \<noteq> ''_comment'' \<and> isMultiBet (JArray bs) \<and> loadable (ident, JArray bs) \<longrightarrow>
         processEntry (ident, JArray bs) acc = Inr (acc @ entryGames (ident, JArray bs))
         \<and> map game_id (entryGames (ident, JArray bs)) =
             map (\<lambda>i. ident @ ''-'' @ show_nat (i + 1)) [0..<length bs]
         \<and> map (\<lambda>g. map Inr (numbers g)) (entryGames (ident, JArray bs)) =
             map (\<lambda>b. map parseInt (elements b)) bs
         \<and> map source (entryGames (ident, JArray bs)) = replicate (length bs) ident)
    \<and> (ident \<noteq> ''_comment'' \<and> \<not> isMultiBet (JArray nums) \<and> list_all convertible nums \<longrightarrow>
         processEntry (ident, JArray nums) acc =
           Inr (acc @ [\<lparr>game_id = ident, sanitizedId = sanitizeForHtml ident,
                        numbers = map (\<lambda>num. projr (parseInt num)) nums, source = ident\<rparr>])
         \<and> map Inr (map (\<lambda>num. projr (parseInt num)) nums) = map parseInt nums)"
proof (intro conjI impI)
  show load: "loadGames (Response status (Some gamesData)) =
      Inr (concat (map entryGames (for_in gamesData)))"
    using assms by (simp add: loadGames_cases)
  show "GAMES (fetchGames (Response status (Some gamesData)) s) =
      concat (map entryGames (for_in gamesData))"
    by (simp add: fetchGames_def load)
  show "processEntry (''_comment'', v) acc = Inr acc"
    by (simp add: processEntry_def)
next
  assume a: "ident \<noteq> ''_comment'' \<and> isMultiBet (JArray bs) \<and> loadable (ident, JArray bs)"
  then show "processEntry (ident, JArray bs) acc = Inr (acc @ entryGames (ident, JArray bs))"
    by (simp add: processEntry_cases)
  from a have n: "ident \<noteq> ''_comment''" and m: "isMultiBet (JArray bs)"
    and l: "loadable (ident, JArray bs)"
    by simp_all
  from n m l have "list_all (\<lambda>b. isArray b \<and> list_all convertible (elements b)) bs"
    by (simp add: loadable_def elements_JArray)
  then have conv: "list_all (\<lambda>b. list_all convertible (elements b)) bs"
    by (simp add: list_all_iff)
  show "map game_id (entryGames (ident, JArray bs)) =
             map (\<lambda>i. ident @ ''-'' @ show_nat (i + 1)) [0..<length bs]"
    using n m by (rule multi_ids)
  have "map (\<lambda>g. map Inr (numbers g)) (entryGames (ident, JArray bs)) =
        map (map Inr) (map numbers (entryGames (ident, JArray bs)))"
    by (simp add: o_def)
  also have "\<dots> = map (map Inr)
      (map (\<lambda>b. map (\<lambda>num. projr (parseInt num)) (elements b)) bs)"
    by (simp only: multi_ids(2) [OF n m])
  also have "\<dots> = map (\<lambda>b. map parseInt (elements b)) bs"
    using conv by (rule numbers_are_parsed)
  finally show "map (\<lambda>g. map Inr (numbers g)) (entryGames (ident, JArray bs)) =
             map (\<lambda>b. map parseInt (elements b)) bs" .
  show "map source (entryGames (ident, JArray bs)) = replicate (length bs) ident"
    using n m by (rule multi_ids)
next
  assume a: "ident \<noteq> ''_comment'' \<and> \<not> isMultiBet (JArray nums) \<and> list_all convertible nums"
  then show "processEntry (ident, JArray nums) acc =
           Inr (acc @ [\<lparr>game_id = ident, sanitizedId = sanitizeForHtml ident,
                        numbers = map (\<lambda>num. projr (parseInt num)) nums, source = ident\<rparr>])"
    by (simp add: processEntry_def Let_def parse_all)
  from a show "map Inr (map (\<lambda>num. projr (parseInt num)) nums) = map parseInt nums"
    by (simp add: list_all_iff parseInt_convertible [symmetric])
qed

theorem games_of_each_entry_witness:
  "list_all loadable (for_in three_entries)
   \<and> map (\<lambda>g. (game_id g, numbers g, source g))
       (concat (map entryGames (for_in three_entries))) =
      [(''T-1'', [Num 1, Num 2, Num 3, Num 4, Num 5, Num 6], ''T''),
       (''T-2'', [Num 7, Num 8, Num 9, Num 10, Num 11, Num 12], ''T''),
       (''S'', [Num 1, Num 10, Num 23, Num 44, Num 51, Num 60], ''S'')]
   \<and> loadGames (Response 200 (Some three_entries)) =
      Inr (concat (map entryGames (for_in three_entries)))"
proof -
  have shaped: "list_all loadable (for_in three_entries)"
    by code_simp
  have games: "map (\<lambda>g. (game_id g, numbers g, source g))
       (concat (map entryGames (for_in three_entries))) =
      [(''T-1'', [Num 1, Num 2, Num 3, Num 4, Num 5, Num 6], ''T''),
       (''T-2'', [Num 7, Num 8, Num 9, Num 10, Num 11, Num 12], ''T''),
       (''S'', [Num 1, Num 10, Num 23, Num 44, Num 51, Num 60], ''S'')]"
    by code_simp
  have "(200::nat) \<le> 200" and "(200::nat) \<le> 299"
    by simp_all
  from games_of_each_entry [OF this shaped]
  have "loadGames (Response 200 (Some three_entries)) =
      Inr (concat (map entryGames (for_in three_entries)))"
    by blast
  with shaped games show ?thesis by blast
qed

text \<open>
  Where the claim as written fails: in \<^verbatim>\<open>{"A": [1,2,3,4,5,6], "T": [[1,2,3,4,5,6], 5]}\<close>
  the value of T is an array whose first element is an array, and A is a flat
  array; the load throws a \<^verbatim>\<open>TypeError\<close> at the 5 and no game is loaded, neither
  \<^verbatim>\<open>T-1\<close> nor A.
\<close>

theorem multi_bet_with_non_array_counterexample:
  "isMultiBet (JArray [JArray (map JInt [1, 2, 3, 4, 5, 6]), JInt 5])
   \<and> loadGames (Response 200 (Some broken_multi_bet)) = Inl TypeError
   \<and> GAMES (init False (Response 200 (Some broken_multi_bet))) = []
   \<and> console (init False (Response 200 (Some broken_multi_bet))) = [TypeError]"
  by code_simp

text \<open>
  Claim C5, as the code has it. The load fails exactly when some entry other than
  \<^verbatim>\<open>_comment\<close> is a multi-bet with an element that is not an array, or has a bet
  with a value that \<^verbatim>\<open>parseInt\<close> cannot convert to a string (an object with an own
  property \<^verbatim>\<open>toString\<close>, or an array holding one at any depth): then the whole load
  throws one \<^verbatim>\<open>TypeError\<close>, which the \<^verbatim>\<open>catch\<close> logs. Every other entry loads without
  an error: a ticket whose value is not an array is skipped, a bet of any length
  is kept, and each value is coerced by \<^verbatim>\<open>parseInt\<close>: to \<^verbatim>\<open>NaN\<close> exactly when its
  string has no digit after the leading white space and an optional sign, else to
  the number its leading digits denote (3.9 becomes 3).
\<close>

theorem load_error_exactly_for_unloadable_entries:
  assumes "200 \<le> status" and "status \<le> 299"
  shows "loadGames (Response status (Some gamesData)) =
      (if list_all loadable (for_in gamesData)
       then Inr (concat (map entryGames (for_in gamesData))) else Inl TypeError)
    \<and> console (fetchGames (Response status (Some gamesData)) s) =
      (if list_all loadable (for_in gamesData) then console s
       else console s @ [TypeError])
    \<and> (\<not> isArray bets \<longrightarrow>
         loadable (ident, bets) \<and> processEntry (ident, bets) acc = Inr acc)
    \<and> (ident \<noteq> ''_comment'' \<and> \<not> isMultiBet (JArray nums) \<and> list_all convertible nums \<longrightarrow>
         processEntry (ident, JArray nums) acc =
           Inr (acc @ [\<lparr>game_id = ident, sanitizedId = sanitizeForHtml ident,
                        numbers = map (\<lambda>num. projr (parseInt num)) nums, source = ident\<rparr>])
         \<and> map Inr (map (\<lambda>num. projr (parseInt num)) nums) = map parseInt nums)
    \<and> (convertible num \<longrightarrow>
         (\<exists>str. js_toString num = Inr str \<and> parseInt num = Inr (parseInt_string str)))
    \<and> (\<not> convertible num \<longrightarrow> parseInt num = Inl TypeError)
    \<and> (parseInt_string str = NaN) =
        (case dropSign (dropWhile isWhiteSpace str) of [] \<Rightarrow> True | c # _ \<Rightarrow> \<not> isDigit c)
    \<and> parseInt (JString ''x'') = Inr NaN
    \<and> parseInt JNull = Inr NaN
    \<and> parseInt (JNumber (Decimal False ''39'' 1)) = Inr (Num 3)"
proof (intro conjI impI)
  show load: "loadGames (Response status (Some gamesData)) =
      (if list_all loadable (for_in gamesData)
       then Inr (concat (map entryGames (for_in gamesData))) else Inl TypeError)"
    using assms by (rule loadGames_cases)
  show "console (fetchGames (Response status (Some gamesData)) s) =
      (if list_all loadable (for_in gamesData) then console s
       else console s @ [TypeError])"
    by (simp add: fetchGames_def load)
  show "(parseInt_string str = NaN) =
        (case dropSign (dropWhile isWhiteSpace str) of [] \<Rightarrow> True | c # _ \<Rightarrow> \<not> isDigit c)"
    by (rule parseInt_string_NaN)
  show "parseInt (JString ''x'') = Inr NaN"
    by code_simp
  show "parseInt JNull = Inr NaN"
    by code_simp
  show "parseInt (JNumber (Decimal False ''39'' 1)) = Inr (Num 3)"
    by code_simp
next
  assume na: "\<not> isArray bets"
  then have nm: "\<not> isMultiBet bets"
    using isMultiBet_isArray by blast
  from na have el: "elements bets = []"
    by (cases bets) (simp_all add: elements_def isArray_def)
  from nm el show "loadable (ident, bets)"
    by (simp add: loadable_def)
  from na nm show "processEntry (ident, bets) acc = Inr acc"
    by (cases bets) (simp_all add: processEntry_def isArray_def Let_def)
next
  assume a: "ident \<noteq> ''_comment'' \<and> \<not> isMultiBet (JArray nums) \<and> list_all convertible nums"
  then show "processEntry (ident, JArray nums) acc =
           Inr (acc @ [\<lparr>game_id = ident, sanitizedId = sanitizeForHtml ident,
                        numbers = map (\<lambda>num. projr (parseInt num)) nums, source = ident\<rparr>])"
    by (simp add: processEntry_def Let_def parse_all)
  from a show "map Inr (map (\<lambda>num. projr (parseInt num)) nums) = map parseInt nums"
    by (simp add: list_all_iff parseInt_convertible [symmetric])
next
  assume "convertible num"
  with js_toString_cases [of num] obtain str where "js_toString num = Inr str"
    by blast
  then show "\<exists>str. js_toString num = Inr str \<and> parseInt num = Inr (parseInt_string str)"
    by (simp add: parseInt_def)
next
  assume "\<not> convertible num"
  with parseInt_cases [of num] show "parseInt num = Inl TypeError"
    by blast
qed

theorem load_error_exactly_for_unloadable_entries_witness:
  "loadGames (Response 200 (Some broken_multi_bet)) = Inl TypeError
   \<and> loadGames (Response 200 (Some toString_object_bet)) = Inl TypeError
   \<and> loadGames (Response 200 (Some malformed_entries)) =
      Inr [\<lparr>game_id = ''T'', sanitizedId = ''T'', numbers = [NaN, Num 2, Num 3],
            source = ''T''\<rparr>]"
proof -
  have ok: "(200::nat) \<le> 200" "(200::nat) \<le> 299"
    by simp_all
  have broken: "\<not> list_all loadable (for_in broken_multi_bet)"
    by code_simp
  have object: "\<not> list_all loadable (for_in toString_object_bet)"
    by code_simp
  have lenient: "list_all loadable (for_in malformed_entries)"
    by code_simp
  have games: "concat (map entryGames (for_in malformed_entries)) =
      [\<lparr>game_id = ''T'', sanitizedId = ''T'', numbers = [NaN, Num 2, Num 3],
            source = ''T''\<rparr>]"
    by code_simp
  from load_error_exactly_for_unloadable_entries [OF ok, of broken_multi_bet] broken
  have "loadGames (Response 200 (Some broken_multi_bet)) = Inl TypeError"
    by simp
  moreover from load_error_exactly_for_unloadable_entries [OF ok, of toString_object_bet] object
  have "loadGames (Response 200 (Some toString_object_bet)) = Inl TypeError"
    by simp
  moreover from load_error_exactly_for_unloadable_entries [OF ok, of malformed_entries]
    lenient games
  have "loadGames (Response 200 (Some malformed_entries)) =
      Inr [\<lparr>game_id = ''T'', sanitizedId = ''T'', numbers = [NaN, Num 2, Num 3],
            source = ''T''\<rparr>]"
    by simp
  ultimately show ?thesis by blast
qed

text \<open>
  Where the claim as written fails: in \<^verbatim>\<open>{"T": ["x", 2, 3], "U": 5}\<close> the bet of T has
  three values, the first not a number, and the value of U is not a bet at all.
  The load throws nothing: T is loaded with the numbers \<^verbatim>\<open>NaN\<close>, 2, 3, U is
  skipped, and the page shows a total of one game.
\<close>

theorem malformed_entries_load_counterexample:
  "loadGames (Response 200 (Some malformed_entries)) =
      Inr [\<lparr>game_id = ''T'', sanitizedId = ''T'', numbers = [NaN, Num 2, Num 3],
            source = ''T''\<rparr>]
   \<and> console (init False (Response 200 (Some malformed_entries))) = []
   \<and> totalBetsDisplay (init False (Response 200 (Some malformed_entries))) = Some 1"
  by code_simp

end
